theory Spec2Isabelle
  imports Main
begin

section \<open>Python strings\<close>

text \<open>
  A Python \<open>str\<close> that the programs build or read from the console is modelled as a
  \<open>string\<close> of characters with code points below 256. A \<open>bytes\<close> value is a \<open>string\<close>
  too, a character being a byte. The commands of the wire protocol are ASCII, for which
  \<open>encode('utf-8')\<close> is the identity.
\<close>

definition whitespace :: "char list" where
  "whitespace = [CHR 0x09, CHR 0x0A, CHR 0x0B, CHR 0x0C, CHR 0x0D, CHR 0x1C, CHR 0x1D,
     CHR 0x1E, CHR 0x1F, CHR '' '', CHR 0x85, CHR 0xA0]"

definition py_isspace :: "char \<Rightarrow> bool" where
  "py_isspace c = (c \<in> set whitespace)"

definition py_strip :: "string \<Rightarrow> string" where
  \<comment> \<open>\<open>s.strip()\<close>\<close>
  "py_strip s = rev (dropWhile py_isspace (rev (dropWhile py_isspace s)))"

definition py_lower_char :: "char \<Rightarrow> char" where
  \<comment> \<open>the ASCII letters; \<open>str.lower\<close> leaves every other ASCII character alone\<close>
  "py_lower_char c =
     (case map_of (zip ''ABCDEFGHIJKLMNOPQRSTUVWXYZ'' ''abcdefghijklmnopqrstuvwxyz'') c of
        None \<Rightarrow> c | Some d \<Rightarrow> d)"

definition py_lower :: "string \<Rightarrow> string" where
  "py_lower s = map py_lower_char s"

definition py_startswith :: "string \<Rightarrow> string \<Rightarrow> bool" where
  "py_startswith s p = (take (length p) s = p)"

definition py_endswith :: "string \<Rightarrow> string \<Rightarrow> bool" where
  "py_endswith s p = (length p \<le> length s \<and> drop (length s - length p) s = p)"

fun split_acc :: "string \<Rightarrow> string \<Rightarrow> string list" where
  "split_acc [] cur = (if cur = [] then [] else [rev cur])"
| "split_acc (c # cs) cur =
     (if py_isspace c then (if cur = [] then split_acc cs [] else rev cur # split_acc cs [])
      else split_acc cs (c # cur))"

definition py_split :: "string \<Rightarrow> string list" where
  \<comment> \<open>\<open>s.split()\<close>: the maximal runs of non-whitespace characters\<close>
  "py_split s = split_acc s []"

fun py_in :: "string \<Rightarrow> string \<Rightarrow> bool" where
  \<comment> \<open>\<open>sub in s\<close> on strings\<close>
  "py_in sub [] = (sub = [])"
| "py_in sub (c # cs) = (py_startswith (c # cs) sub \<or> py_in sub cs)"

subsection \<open>Bytes and text\<close>

definition py_encode :: "string \<Rightarrow> string" where
  \<comment> \<open>\<open>s.encode('utf-8')\<close>, for code points below 256: one byte below 128, two from there\<close>
  "py_encode s =
     concat (map (\<lambda>c. if (of_char c :: int) < 128 then [c]
                        else [char_of (192 + (of_char c :: int) div 64),
                              char_of (128 + (of_char c :: int) mod 64)]) s)"

text \<open>
  The text that \<open>decode\<close> gives can hold any code point: it is a list of code points.
\<close>

type_synonym unicode = "int list"

definition text_of :: "string \<Rightarrow> unicode" where
  \<comment> \<open>the text with the code points of the characters\<close>
  "text_of s = map of_char s"

definition continuation :: "int \<Rightarrow> bool" where
  "continuation b = (0x80 \<le> b \<and> b \<le> 0xBF)"

definition utf8_seq :: "int list \<Rightarrow> (int \<times> nat) option" where
  \<comment> \<open>the well-formed UTF-8 sequence at the head of the bytes, if there is one: its code
      point and its length. No overlong form, no surrogate, nothing above \<open>U+10FFFF\<close>.\<close>
  "utf8_seq bs =
     (case bs of
        [] \<Rightarrow> None
      | b0 # r \<Rightarrow>
          if b0 < 0x80 then Some (b0, 1)
          else if 0xC2 \<le> b0 \<and> b0 \<le> 0xDF then
            (case r of
               b1 # _ \<Rightarrow>
                 if continuation b1 then Some ((b0 - 0xC0) * 64 + (b1 - 0x80), 2) else None
             | _ \<Rightarrow> None)
          else if 0xE0 \<le> b0 \<and> b0 \<le> 0xEF then
            (case r of
               b1 # b2 # _ \<Rightarrow>
                 if continuation b1 \<and> continuation b2
                    \<and> (b0 = 0xE0 \<longrightarrow> 0xA0 \<le> b1) \<and> (b0 = 0xED \<longrightarrow> b1 \<le> 0x9F)
                 then Some ((b0 - 0xE0) * 4096 + (b1 - 0x80) * 64 + (b2 - 0x80), 3) else None
             | _ \<Rightarrow> None)
          else if 0xF0 \<le> b0 \<and> b0 \<le> 0xF4 then
            (case r of
               b1 # b2 # b3 # _ \<Rightarrow>
                 if continuation b1 \<and> continuation b2 \<and> continuation b3
                    \<and> (b0 = 0xF0 \<longrightarrow> 0x90 \<le> b1) \<and> (b0 = 0xF4 \<longrightarrow> b1 \<le> 0x8F)
                 then Some ((b0 - 0xF0) * 262144 + (b1 - 0x80) * 4096 + (b2 - 0x80) * 64
                              + (b3 - 0x80), 4)
                 else None
             | _ \<Rightarrow> None)
          else None)"

fun utf8_ignore :: "int list \<Rightarrow> unicode" where
  \<comment> \<open>a byte that begins no well-formed sequence is dropped. The decoder of Python drops
      the bytes of an ill-formed sequence up to the offending byte together; those after
      the first are continuation bytes, which begin no sequence, so the text is the same.\<close>
  "utf8_ignore [] = []"
| "utf8_ignore (b # bs) =
     (case utf8_seq (b # bs) of
        None \<Rightarrow> utf8_ignore bs
      | Some (cp, n) \<Rightarrow> cp # utf8_ignore (drop (n - 1) bs))"

definition py_decode :: "string \<Rightarrow> unicode" where
  \<comment> \<open>\<open>b.decode('utf-8', errors='ignore')\<close>\<close>
  "py_decode b = utf8_ignore (map of_char b)"

definition py_uisspace :: "int \<Rightarrow> bool" where
  \<comment> \<open>the code points that \<open>str.strip()\<close> removes\<close>
  "py_uisspace c =
     (c \<in> set [0x09, 0x0A, 0x0B, 0x0C, 0x0D, 0x1C, 0x1D, 0x1E, 0x1F, 0x20, 0x85, 0xA0, 0x1680,
               0x2000, 0x2001, 0x2002, 0x2003, 0x2004, 0x2005, 0x2006, 0x2007, 0x2008, 0x2009,
               0x200A, 0x2028, 0x2029, 0x202F, 0x205F, 0x3000])"

definition py_ustrip :: "unicode \<Rightarrow> unicode" where
  \<comment> \<open>\<open>s.strip()\<close> on a decoded text\<close>
  "py_ustrip s = rev (dropWhile py_uisspace (rev (dropWhile py_uisspace s)))"

section \<open>Python numbers and their text\<close>

fun digits :: "nat \<Rightarrow> string" where
  "digits n = (if n < 10 then [''0123456789'' ! n]
               else digits (n div 10) @ [''0123456789'' ! (n mod 10)])"

definition str_int :: "int \<Rightarrow> string" where
  \<comment> \<open>\<open>str(i)\<close> for a Python \<open>int\<close>, which is unbounded\<close>
  "str_int i = (if i < 0 then ''-'' @ digits (nat (- i)) else digits (nat i))"

text \<open>
  A Python \<open>float\<close> is a binary64 number. Every finite binary64 number has a finite
  decimal expansion, so \<open>Finite neg m k\<close>, the number \<open>\<plusminus> m / 10 ^ k\<close> with its sign bit,
  covers them all; \<open>Inf neg\<close> and \<open>NaN\<close> are the special values. Rounding to binary64 is
  not part of the model: a decimal literal stands for the float nearest to it, whose
  \<open>repr\<close> gives the literal's digits back as long as it has at most 15 significant digits.
\<close>

datatype pyfloat = Finite bool nat nat | Inf bool | NaN

definition float_of_int :: "int \<Rightarrow> pyfloat" where
  "float_of_int i = Finite (i < 0) (nat \<bar>i\<bar>) 0"

fun float_le :: "pyfloat \<Rightarrow> pyfloat \<Rightarrow> bool" where
  \<comment> \<open>\<open>a <= b\<close>; every comparison with a NaN is false\<close>
  "float_le NaN _ = False"
| "float_le _ NaN = False"
| "float_le (Inf n1) (Inf n2) = (n1 \<or> \<not> n2)"
| "float_le (Inf n1) (Finite _ _ _) = n1"
| "float_le (Finite _ _ _) (Inf n2) = (\<not> n2)"
| "float_le (Finite n1 m1 k1) (Finite n2 m2 k2) =
     ((if n1 then - int m1 else int m1) * 10 ^ k2 \<le> (if n2 then - int m2 else int m2) * 10 ^ k1)"

fun strip_zeros :: "string \<Rightarrow> string" where
  \<comment> \<open>drops the trailing zeros of a digit string\<close>
  "strip_zeros ds = rev (dropWhile (\<lambda>c. c = CHR ''0'') (rev ds))"

definition repr_digits :: "string \<Rightarrow> int \<Rightarrow> string" where
  \<comment> \<open>\<open>repr\<close> of the positive float \<open>0.ds * 10 ^ decpt\<close>, where \<open>ds\<close> has no trailing zero:
      positional for \<open>-4 < decpt \<le> 16\<close>, with an exponent otherwise\<close>
  "repr_digits ds decpt =
     (if - 4 < decpt \<and> decpt \<le> 16 then
        (if decpt \<le> 0 then ''0.'' @ replicate (nat (- decpt)) (CHR ''0'') @ ds
         else if int (length ds) \<le> decpt
           then ds @ replicate (nat decpt - length ds) (CHR ''0'') @ ''.0''
         else take (nat decpt) ds @ ''.'' @ drop (nat decpt) ds)
      else
        take 1 ds @ (if length ds \<le> 1 then [] else ''.'' @ drop 1 ds) @ ''e''
          @ (if decpt - 1 < 0 then ''-'' else ''+'')
          @ (if \<bar>decpt - 1\<bar> < 10 then ''0'' else []) @ digits (nat \<bar>decpt - 1\<bar>))"

fun str_float :: "pyfloat \<Rightarrow> string" where
  \<comment> \<open>\<open>str(x)\<close> for a float, which is its \<open>repr\<close>\<close>
  "str_float NaN = ''nan''"
| "str_float (Inf neg) = (if neg then ''-inf'' else ''inf'')"
| "str_float (Finite neg m k) =
     (if neg then ''-'' else []) @
     (if m = 0 then ''0.0''
      else repr_digits (strip_zeros (digits m)) (int (length (digits m)) - int k))"

section \<open>Python values\<close>

text \<open>
  The values \<open>json.loads\<close> produces, and the ones the operator tool passes to
  \<open>send_command\<close>. A \<open>PDict\<close> lists the items of a dict, whose keys are distinct.
\<close>

datatype pyval =
    PNone
  | PBool bool
  | PInt int
  | PFloat pyfloat
  | PStr string
  | PList "pyval list"
  | PDict "(string \<times> pyval) list"

fun join :: "string \<Rightarrow> string list \<Rightarrow> string" where
  "join sep [] = []"
| "join sep [x] = x"
| "join sep (x # y # ys) = x @ sep @ join sep (y # ys)"

fun py_repr :: "pyval \<Rightarrow> string" where
  \<comment> \<open>\<open>repr(v)\<close>; a string is quoted without escapes, which is what Python does for
      printable text free of quotes and backslashes\<close>
  "py_repr PNone = ''None''"
| "py_repr (PBool b) = (if b then ''True'' else ''False'')"
| "py_repr (PInt i) = str_int i"
| "py_repr (PFloat x) = str_float x"
| "py_repr (PStr s) = [CHR 0x27] @ s @ [CHR 0x27]"
| "py_repr (PList vs) = ''['' @ join '', '' (map py_repr vs) @ '']''"
| "py_repr (PDict kvs) =
     ''{'' @ join '', '' (map (\<lambda>kv. [CHR 0x27] @ fst kv @ [CHR 0x27] @ '': '' @ py_repr (snd kv)) kvs)
       @ ''}''"

definition py_str :: "pyval \<Rightarrow> string" where
  \<comment> \<open>what \<open>f"{v}"\<close> inserts: \<open>str(v)\<close>, the text itself for a string and the \<open>repr\<close>
      for every other value\<close>
  "py_str v = (case v of PStr s \<Rightarrow> s | _ \<Rightarrow> py_repr v)"

definition dict_get :: "(string \<times> pyval) list \<Rightarrow> string \<Rightarrow> pyval \<Rightarrow> pyval" where
  \<comment> \<open>\<open>d.get(key, default)\<close>\<close>
  "dict_get d key dflt = (case map_of d key of None \<Rightarrow> dflt | Some v \<Rightarrow> v)"

text \<open>
  \<open>float(s)\<close> on the plain decimal spellings \<open>[+-]digits[.digits]\<close>, \<open>[+-].digits\<close>,
  and the special values; \<open>None\<close> is the \<open>ValueError\<close>. Python accepts further spellings
  (exponents, underscores between digits, surrounding whitespace): the dispatcher below
  takes the conversion as a parameter, and this one is used to run it on concrete input.
\<close>

definition is_digit :: "char \<Rightarrow> bool" where
  "is_digit c = (c \<in> set ''0123456789'')"

definition digit_val :: "char \<Rightarrow> nat" where
  "digit_val c = (case map_of (zip ''0123456789'' [0, 1, 2, 3, 4, 5, 6, 7, 8, 9]) c of
                    None \<Rightarrow> 0 | Some d \<Rightarrow> d)"

definition nat_of_digits :: "string \<Rightarrow> nat" where
  "nat_of_digits ds = foldl (\<lambda>n c. 10 * n + digit_val c) 0 ds"

definition float_unsigned :: "bool \<Rightarrow> string \<Rightarrow> pyfloat option" where
  "float_unsigned neg s =
     (if py_lower s = ''inf'' \<or> py_lower s = ''infinity'' then Some (Inf neg)
      else if py_lower s = ''nan'' then Some NaN
      else
        (let ip = takeWhile is_digit s; rest = dropWhile is_digit s in
         if rest = [] then (if ip = [] then None else Some (Finite neg (nat_of_digits ip) 0))
         else if hd rest = CHR ''.'' \<and> list_all is_digit (tl rest) \<and> (ip \<noteq> [] \<or> tl rest \<noteq> [])
           then Some (Finite neg (nat_of_digits (ip @ tl rest)) (length (tl rest)))
         else None))"

definition py_float :: "string \<Rightarrow> pyfloat option" where
  "py_float s =
     (case s of
        [] \<Rightarrow> None
      | c # cs \<Rightarrow>
          if c = CHR ''-'' then float_unsigned True cs
          else if c = CHR ''+'' then float_unsigned False cs
          else float_unsigned False s)"

section \<open>The wire format\<close>

definition serial_cmd :: "(string \<times> pyval) list \<Rightarrow> string" where
  \<comment> \<open>\<open>send_to_robot\<close>, the three \<open>get\<close> calls and the f-string\<close>
  "serial_cmd cmd_data =
     (let command = dict_get cmd_data ''command'' (PStr ''STOP'');
          value = dict_get cmd_data ''value'' (PInt 0);
          unit = dict_get cmd_data ''unit'' (PStr ''none'')
      in py_str command @ '','' @ py_str value @ '','' @ py_str unit @ [CHR 0x0A])"

definition cmd_string :: "string \<Rightarrow> pyval \<Rightarrow> string \<Rightarrow> string" where
  \<comment> \<open>\<open>send_command\<close> of the operator tool, the f-string\<close>
  "cmd_string command value unit = command @ '','' @ py_str value @ '','' @ unit @ [CHR 0x0A]"

section \<open>The serial link and the console\<close>

text \<open>
  What the programs do to the outside is recorded in a trace, in program order. A call of
  the serial library that can raise (\<open>serial.Serial(...)\<close>, \<open>write\<close>, \<open>flush\<close>) takes
  its outcome from a script of the hardware: \<open>True\<close> when the call returns, \<open>False\<close> when
  it raises; an exhausted script means the call returns. \<open>close\<close>, the buffer resets and
  the reads are modelled as returning. The clock counts milliseconds and advances in
  \<open>time.sleep\<close> only. The device's output is a queue of lines, each the bytes that one
  \<open>readline()\<close> returns, with the time from which it is waiting in the input buffer.
\<close>

datatype message =
    NotConnected
  | Sent string
  | RawSent string
  | SendError
  | Usage string
  | SpeedRange
  | UnknownCommand string
  | Help
  | ClearScreen
  | MonitoringStarted
  | Exiting
  | Disconnected
  | CommandSent string
  | Response unicode
  | NoResponse
  | NotJson
  | SerialError
  | NoPort
  | Connected string
  | SerialUnavailable

datatype event =
    Led bool bool
  | Sleep int
  | Open string bool
  | Close
  | ResetInput
  | ResetOutput
  | Write string bool
  | Flush bool
  | Print message

record hw =
  now :: int
  incoming :: "(int \<times> string) list"
  script :: "bool list"
  trace :: "event list"

definition emit :: "event \<Rightarrow> 'a hw_scheme \<Rightarrow> 'a hw_scheme" where
  "emit e w = w\<lparr>trace := trace w @ [e]\<rparr>"

definition sleep :: "int \<Rightarrow> 'a hw_scheme \<Rightarrow> 'a hw_scheme" where
  "sleep ms w = emit (Sleep ms) (w\<lparr>now := now w + ms\<rparr>)"

definition outcome :: "'a hw_scheme \<Rightarrow> bool" where
  "outcome w = (case script w of [] \<Rightarrow> True | ok # _ \<Rightarrow> ok)"

definition ser_write :: "string \<Rightarrow> 'a hw_scheme \<Rightarrow> bool \<times> 'a hw_scheme" where
  "ser_write bytes w = (outcome w, emit (Write bytes (outcome w)) (w\<lparr>script := tl (script w)\<rparr>))"

definition ser_flush :: "'a hw_scheme \<Rightarrow> bool \<times> 'a hw_scheme" where
  "ser_flush w = (outcome w, emit (Flush (outcome w)) (w\<lparr>script := tl (script w)\<rparr>))"

fun written :: "event list \<Rightarrow> string list" where
  \<comment> \<open>the byte strings handed to \<open>write\<close>, in order, whether or not the call returned\<close>
  "written [] = []"
| "written (Write bytes ok # es) = bytes # written es"
| "written (e # es) = written es"

definition in_waiting :: "'a hw_scheme \<Rightarrow> bool" where
  \<comment> \<open>\<open>ser.in_waiting\<close> as a condition: a line of the device is waiting\<close>
  "in_waiting w = (case incoming w of [] \<Rightarrow> False | (t, line) # rest \<Rightarrow> t \<le> now w)"

definition readline :: "'a hw_scheme \<Rightarrow> unicode \<times> 'a hw_scheme" where
  \<comment> \<open>\<open>ser.readline().decode('utf-8', errors='ignore').strip()\<close>, called when a line is
      waiting: the line leaves the queue\<close>
  "readline w =
     (case incoming w of
        [] \<Rightarrow> ([], w)
      | (t, line) # rest \<Rightarrow> (py_ustrip (py_decode line), w\<lparr>incoming := rest\<rparr>))"

definition reset_input_buffer :: "'a hw_scheme \<Rightarrow> 'a hw_scheme" where
  \<comment> \<open>drops what is waiting in the input buffer\<close>
  "reset_input_buffer w =
     emit ResetInput (w\<lparr>incoming := dropWhile (\<lambda>e. fst e \<le> now w) (incoming w)\<rparr>)"

fun responses :: "event list \<Rightarrow> unicode list" where
  \<comment> \<open>the device's lines that were printed, in order\<close>
  "responses [] = []"
| "responses (Print (Response line) # es) = line # responses es"
| "responses (e # es) = responses es"

fun elapsed :: "event list \<Rightarrow> int" where
  \<comment> \<open>the time the events take: the sleeps\<close>
  "elapsed [] = 0"
| "elapsed (Sleep ms # es) = ms + elapsed es"
| "elapsed (e # es) = elapsed es"

fun link_events :: "event list \<Rightarrow> event list" where
  \<comment> \<open>the opens and closes of the port, in order\<close>
  "link_events [] = []"
| "link_events (Open port ok # es) = Open port ok # link_events es"
| "link_events (Close # es) = Close # link_events es"
| "link_events (e # es) = link_events es"

section \<open>The operator tool: \<open>serial_monitor.py\<close>\<close>

text \<open>
  \<open>self_ser\<close> is \<open>None\<close> before \<open>connect\<close>, and \<open>Some b\<close> for a \<open>Serial\<close> object
  with \<open>is_open = b\<close>. The monitor thread only prints what the device sends and is left out.
\<close>

record monitor = hw +
  self_ser :: "bool option"
  self_running :: bool

definition send_command :: "string \<Rightarrow> pyval \<Rightarrow> string \<Rightarrow> monitor \<Rightarrow> bool \<times> monitor" where
  "send_command command value unit m =
     (if self_ser m \<noteq> Some True then (False, emit (Print NotConnected) m)
      else
        (let (wrote, m1) = ser_write (py_encode (cmd_string command value unit)) m in
         if \<not> wrote then (False, emit (Print SendError) m1)
         else
           (let (flushed, m2) = ser_flush m1 in
            if \<not> flushed then (False, emit (Print SendError) m2)
            else (True, emit (Print (Sent (py_strip (cmd_string command value unit)))) m2))))"

definition send_raw :: "string \<Rightarrow> monitor \<Rightarrow> bool \<times> monitor" where
  "send_raw raw_data m =
     (if self_ser m \<noteq> Some True then (False, emit (Print NotConnected) m)
      else
        (let raw = (if \<not> py_endswith raw_data [CHR 0x0A] then raw_data @ [CHR 0x0A] else raw_data);
             (wrote, m1) = ser_write (py_encode raw) m in
         if \<not> wrote then (False, emit (Print SendError) m1)
         else
           (let (flushed, m2) = ser_flush m1 in
            if \<not> flushed then (False, emit (Print SendError) m2)
            else (True, emit (Print (RawSent (py_strip raw))) m2))))"

definition disconnect :: "monitor \<Rightarrow> monitor" where
  "disconnect m =
     (let m1 = m\<lparr>self_running := False\<rparr> in
      if self_ser m1 = Some True then emit (Print Disconnected) (emit Close (m1\<lparr>self_ser := Some False\<rparr>))
      else m1)"

definition start_monitoring :: "monitor \<Rightarrow> bool \<times> monitor" where
  "start_monitoring m =
     (if self_ser m \<noteq> Some True then (False, emit (Print NotConnected) m)
      else (True, emit (Print MonitoringStarted) (m\<lparr>self_running := True\<rparr>)))"

definition move_command ::
  "(string \<Rightarrow> pyfloat option) \<Rightarrow> string \<Rightarrow> string \<Rightarrow> string \<Rightarrow> string \<Rightarrow> monitor \<Rightarrow> monitor" where
  \<comment> \<open>the branches of \<open>forward\<close>, \<open>backward\<close>, \<open>left\<close> and \<open>right\<close>:
      \<open>float(user_input.split()[1])\<close>, then \<open>send_command\<close>; any exception prints the usage\<close>
  "move_command float user_input command unit usage m =
     (case py_split user_input of
        _ # arg # _ \<Rightarrow>
          (case float arg of
             None \<Rightarrow> emit (Print (Usage usage)) m
           | Some x \<Rightarrow> snd (send_command command (PFloat x) unit m))
      | _ \<Rightarrow> emit (Print (Usage usage)) m)"

definition speed_command :: "(string \<Rightarrow> pyfloat option) \<Rightarrow> string \<Rightarrow> monitor \<Rightarrow> monitor" where
  "speed_command float user_input m =
     (case py_split user_input of
        _ # arg # _ \<Rightarrow>
          (case float arg of
             None \<Rightarrow> emit (Print (Usage ''speed <percent>'')) m
           | Some speed \<Rightarrow>
               if float_le (float_of_int 0) speed \<and> float_le speed (float_of_int 100)
               then snd (send_command ''SPEED'' (PFloat speed) ''percent'' m)
               else emit (Print SpeedRange) m)
      | _ \<Rightarrow> emit (Print (Usage ''speed <percent>'')) m)"

definition handle_input :: "(string \<Rightarrow> pyfloat option) \<Rightarrow> string \<Rightarrow> monitor \<Rightarrow> bool \<times> monitor" where
  \<comment> \<open>one turn of the loop of \<open>interactive_mode\<close> on the line \<open>input()\<close> returned;
      the flag is False when the loop is left by \<open>break\<close>\<close>
  "handle_input float line m =
     (let user_input = py_lower (py_strip line) in
      if user_input = [] then (True, m)
      else if user_input \<in> set [''quit'', ''exit'', ''q''] then (False, m)
      else if user_input = ''help'' then (True, emit (Print Help) m)
      else if user_input = ''clear'' then (True, emit (Print ClearScreen) m)
      else if user_input = ''status'' then (True, snd (send_command ''STATUS'' (PInt 0) ''none'' m))
      else if user_input = ''stop'' then (True, snd (send_command ''STOP'' (PInt 0) ''none'' m))
      else if py_startswith user_input ''forward '' then
        (True, move_command float user_input ''FORWARD'' ''meter'' ''forward <distance>'' m)
      else if py_startswith user_input ''backward '' then
        (True, move_command float user_input ''BACKWARD'' ''meter'' ''backward <distance>'' m)
      else if py_startswith user_input ''left '' then
        (True, move_command float user_input ''LEFT'' ''degree'' ''left <degrees>'' m)
      else if py_startswith user_input ''right '' then
        (True, move_command float user_input ''RIGHT'' ''degree'' ''right <degrees>'' m)
      else if py_startswith user_input ''speed '' then (True, speed_command float user_input m)
      else if py_startswith user_input ''raw '' then (True, snd (send_raw (drop 4 user_input) m))
      else (True, emit (Print (UnknownCommand user_input)) m))"

text \<open>
  What the operator does at the prompt: a line is typed, or the operator interrupts
  (\<open>KeyboardInterrupt\<close>). The end of the list is the end of the input (\<open>EOFError\<close>).
\<close>

datatype operator_input = Typed string | Interrupt

fun command_loop :: "(string \<Rightarrow> pyfloat option) \<Rightarrow> operator_input list \<Rightarrow> monitor \<Rightarrow> monitor" where
  "command_loop float [] m = m"
| "command_loop float (Interrupt # rest) m = m"
| "command_loop float (Typed line # rest) m =
     (if \<not> self_running m then m
      else (case handle_input float line m of
              (True, m1) \<Rightarrow> command_loop float rest m1
            | (False, m1) \<Rightarrow> m1))"

definition interactive_mode :: "(string \<Rightarrow> pyfloat option) \<Rightarrow> operator_input list \<Rightarrow> monitor \<Rightarrow> monitor" where
  "interactive_mode float inputs m =
     (case start_monitoring m of
        (False, m1) \<Rightarrow> m1
      | (True, m1) \<Rightarrow>
          disconnect (emit (Print Exiting) (command_loop float inputs (emit (Print Help) m1))))"

definition connected :: "bool list \<Rightarrow> monitor" where
  \<comment> \<open>the monitor as a successful \<open>connect\<close> leaves it, on the given script of the hardware\<close>
  "connected sc = \<lparr>now = 0, incoming = [], script = sc, trace = [], self_ser = Some True, self_running = False\<rparr>"

section \<open>Port discovery\<close>

text \<open>
  An entry of \<open>serial.tools.list_ports.comports()\<close>; \<open>description\<close> and \<open>manufacturer\<close>
  may be \<open>None\<close>. What the file system says (\<open>os.path.exists\<close>, the boot configuration)
  is a parameter of the functions.
\<close>

record port_info =
  device :: string
  description :: "string option"
  manufacturer :: "string option"

definition GPIO_UART_PORT :: string where
  "GPIO_UART_PORT = ''/dev/ttyS0''"

definition GPIO_UART_ENABLE :: bool where
  "GPIO_UART_ENABLE = False"

definition priority_ports :: "string list" where
  "priority_ports = [GPIO_UART_PORT, ''/dev/ttyUSB0'', ''/dev/ttyUSB1'', ''/dev/ttyACM0'', ''/dev/ttyACM1'']"

fun first_priority :: "string list \<Rightarrow> port_info list \<Rightarrow> string option" where
  \<comment> \<open>\<open>for port_name in priority_ports: for port in ports: if port.device == port_name: return\<close>\<close>
  "first_priority [] ports = None"
| "first_priority (port_name # names) ports =
     (case find (\<lambda>port. device port = port_name) ports of
        Some port \<Rightarrow> Some (device port)
      | None \<Rightarrow> first_priority names ports)"

definition looks_like_esp32 :: "port_info \<Rightarrow> bool" where
  \<comment> \<open>the three tests of the second loop of \<open>find_esp32_port_rpi\<close>\<close>
  "looks_like_esp32 port =
     (let desc = (case description port of None \<Rightarrow> [] | Some d \<Rightarrow> py_lower d);
          mfr = (case manufacturer port of None \<Rightarrow> [] | Some m \<Rightarrow> py_lower m)
      in list_ex (\<lambda>x. py_in x desc)
           [''ch340'', ''cp210'', ''usb serial'', ''uart'', ''silicon labs'', ''usb2.0-serial'']
         \<or> list_ex (\<lambda>x. py_in x mfr) [''qinheng'', ''silicon'', ''ftdi'', ''1a86'']
         \<or> py_in ''ttyUSB'' (device port) \<or> py_in ''ttyACM'' (device port))"

definition find_esp32_port_rpi :: "bool \<Rightarrow> port_info list \<Rightarrow> string option" where
  \<comment> \<open>\<open>main_raspy.py\<close>; the first argument is what \<open>check_gpio_uart_available()\<close> returns\<close>
  "find_esp32_port_rpi gpio_uart_available ports =
     (if GPIO_UART_ENABLE \<and> gpio_uart_available then Some GPIO_UART_PORT
      else
        (case first_priority priority_ports ports of
           Some d \<Rightarrow> Some d
         | None \<Rightarrow>
             (case find looks_like_esp32 ports of
                Some port \<Rightarrow> Some (device port)
              | None \<Rightarrow> (case ports of [] \<Rightarrow> None | port # _ \<Rightarrow> Some (device port)))))"

definition find_esp32_port :: "bool \<Rightarrow> port_info list \<Rightarrow> string option" where
  \<comment> \<open>\<open>serial_monitor.py\<close>; the first argument is \<open>os.path.exists('/dev/ttyS0')\<close>\<close>
  "find_esp32_port ttyS0_exists ports =
     (if ttyS0_exists then Some ''/dev/ttyS0''
      else
        (case first_priority (tl priority_ports) ports of
           Some d \<Rightarrow> Some d
         | None \<Rightarrow> (case ports of [] \<Rightarrow> None | port # _ \<Rightarrow> Some (device port))))"

section \<open>The voice controller: \<open>main_raspy.py\<close>\<close>

text \<open>
  The globals \<open>ser\<close> (\<open>None\<close>, or \<open>Some b\<close> for a \<open>Serial\<close> object with \<open>is_open = b\<close>)
  and \<open>SERIAL_PORT\<close>, with the list \<open>comports()\<close> returns and the answer of
  \<open>check_gpio_uart_available()\<close>. Of the console output, the messages that tell the
  outcome are recorded.
\<close>

record world = hw +
  ser :: "bool option"
  SERIAL_PORT :: "string option"
  comports :: "port_info list"
  gpio_uart_available :: bool

function startup_loop :: "int \<Rightarrow> world \<Rightarrow> int \<times> world" where
  \<comment> \<open>the loop of \<open>init_serial\<close> that reads the startup messages; returns the last value of
      \<open>timeout_start\<close> with the world\<close>
  "startup_loop timeout_start w =
     (if now w - timeout_start < 3000 then
        (if in_waiting w then
           (if fst (readline w) \<noteq> [] then
              startup_loop (now w) (emit (Print (Response (fst (readline w)))) (snd (readline w)))
            else startup_loop timeout_start (snd (readline w)))
         else startup_loop timeout_start (sleep 100 w))
      else (timeout_start, w))"
  by pat_completeness auto
termination
  by (relation "measures [\<lambda>(ts, w). length (incoming w), \<lambda>(ts, w). nat (3000 - (now w - ts))]")
     (auto simp: in_waiting_def readline_def emit_def sleep_def split: list.splits)

definition init_serial :: "world \<Rightarrow> bool \<times> world" where
  "init_serial w =
     (let w1 = emit (Led True False) w;
          w2 = (if SERIAL_PORT w1 = None
                then w1\<lparr>SERIAL_PORT := find_esp32_port_rpi (gpio_uart_available w1) (comports w1)\<rparr>
                else w1)
      in case SERIAL_PORT w2 of
           None \<Rightarrow> (False, emit (Led False False) (emit (Print NoPort) w2))
         | Some port \<Rightarrow>
             (let opened = outcome w2;
                  w3 = emit (Open port opened) (w2\<lparr>script := tl (script w2)\<rparr>)
              in if \<not> opened
                 then (False, emit (Led False False) (emit (Print SerialUnavailable) w3))
                 else
                   (let w4 = emit (Print (Connected port))
                               (emit ResetOutput
                                 (reset_input_buffer (sleep 3000 (w3\<lparr>ser := Some True\<rparr>))));
                        (wrote, w5) = ser_write (''STATUS,0,none'' @ [CHR 0x0A]) w4
                    in if \<not> wrote
                       then (False, emit (Led False False) (emit (Print SerialUnavailable) w5))
                       else
                         (let w6 = sleep 500 w5;
                              (timeout_start, w7) = startup_loop (now w6) w6
                          in (True, emit (Led True True) w7)))))"

function response_loop :: "int \<Rightarrow> nat \<Rightarrow> world \<Rightarrow> int \<times> nat \<times> world" where
  \<comment> \<open>the loop of \<open>send_to_robot\<close> that reads the response; returns the last values of
      \<open>timeout_start\<close> and \<open>response_count\<close> with the world\<close>
  "response_loop timeout_start response_count w =
     (if now w - timeout_start < 3000 then
        (if in_waiting w then
           (if fst (readline w) \<noteq> [] then
              response_loop (now w) (response_count + 1)
                (emit (Led True True) (sleep 50 (emit (Led False False)
                   (emit (Print (Response (fst (readline w)))) (snd (readline w))))))
            else response_loop timeout_start response_count (snd (readline w)))
         else
           (if response_count > 0 \<and> now (sleep 50 w) - timeout_start > 1000
            then (timeout_start, response_count, sleep 50 w)
            else response_loop timeout_start response_count (sleep 50 w)))
      else (timeout_start, response_count, w))"
  by pat_completeness auto
termination
  by (relation "measures [\<lambda>(ts, c, w). length (incoming w), \<lambda>(ts, c, w). nat (3000 - (now w - ts))]")
     (auto simp: in_waiting_def readline_def emit_def sleep_def split: list.splits)

definition reconnect :: "world \<Rightarrow> bool \<times> world" where
  \<comment> \<open>the handler \<open>except Exception\<close> of \<open>send_to_robot\<close>\<close>
  "reconnect w =
     (let w1 = emit (Led False False) (emit (Print SerialError) w);
          w2 = (case ser w1 of None \<Rightarrow> w1 | Some _ \<Rightarrow> emit Close (w1\<lparr>ser := Some False\<rparr>))
      in (False, snd (init_serial (sleep 1000 w2))))"

definition send_to_robot :: "pyval option \<Rightarrow> world \<Rightarrow> bool \<times> world" where
  \<comment> \<open>the argument is what \<open>json.loads(command_json)\<close> gives: \<open>None\<close> for a
      \<open>JSONDecodeError\<close>, the decoded value otherwise; a value that is not a dict has no
      \<open>get\<close>, and the \<open>AttributeError\<close> goes to the general handler\<close>
  "send_to_robot command_json w =
     (if ser w \<noteq> Some True then (False, emit (Led False False) (emit (Print NotConnected) w))
      else
        (case command_json of
           None \<Rightarrow> (False, emit (Print NotJson) w)
         | Some (PDict cmd_data) \<Rightarrow>
             (let w1 = emit (Led True True) (sleep 100 (emit (Led False True) w));
                  (wrote, w2) = ser_write (py_encode (serial_cmd cmd_data)) w1
              in if \<not> wrote then reconnect w2
                 else
                   (let (flushed, w3) = ser_flush w2
                    in if \<not> flushed then reconnect w3
                       else
                         (let w4 = sleep 300 (emit (Print (CommandSent (py_strip (serial_cmd cmd_data)))) w3);
                              (timeout_start, response_count, w5) = response_loop (now w4) 0 w4
                          in (True, if response_count = 0 then emit (Print NoResponse) w5 else w5))))
         | Some _ \<Rightarrow> reconnect w))"

definition quiet_window_policy :: "int \<Rightarrow> int \<Rightarrow> int \<Rightarrow> int \<Rightarrow> int \<Rightarrow> nat \<Rightarrow> int \<Rightarrow> bool" where
  \<comment> \<open>the policy of section 4.4 of the specification, in its words: collection that
      started at \<open>start\<close> stops at \<open>finish\<close> either (a) when activity has occurred and no
      new line has arrived for \<open>quiet\<close>, seen at the first poll after that, or (b) when the
      \<open>window\<close> has elapsed with zero lines received\<close>
  "quiet_window_policy window quiet poll start last_activity received finish =
     (if received = 0 then finish = start + window
      else quiet < finish - last_activity \<and> finish - last_activity \<le> quiet + poll)"

definition idle :: "int \<Rightarrow> (int \<times> string) list \<Rightarrow> bool list \<Rightarrow> world" where
  \<comment> \<open>the controller connected on \<open>/dev/ttyUSB0\<close>, at a given time, with the lines the
      device will send and the script of the hardware\<close>
  "idle t lines sc =
     \<lparr>now = t, incoming = lines, script = sc, trace = [], ser = Some True,
      SERIAL_PORT = Some ''/dev/ttyUSB0'', comports = [], gpio_uart_available = False\<rparr>"

fun last_line_time :: "int \<Rightarrow> int \<Rightarrow> event list \<Rightarrow> int" where
  \<comment> \<open>the time at which the last line of the device was printed by events that begin at
      time \<open>t\<close>, and \<open>prev\<close> if none was\<close>
  "last_line_time prev t [] = prev"
| "last_line_time prev t (Sleep ms # es) = last_line_time prev (t + ms) es"
| "last_line_time prev t (Print (Response line) # es) = last_line_time t t es"
| "last_line_time prev t (e # es) = last_line_time prev t es"

definition handshake_state :: "string \<Rightarrow> world \<Rightarrow> world" where
  \<comment> \<open>the world in which \<open>init_serial\<close> enters its loop, when the port opens\<close>
  "handshake_state port w =
     sleep 500 (snd (ser_write (''STATUS,0,none'' @ [CHR 0x0A])
       (emit (Print (Connected port)) (emit ResetOutput (reset_input_buffer (sleep 3000
          ((emit (Open port True)
             ((emit (Led True False) w)\<lparr>SERIAL_PORT := Some port, script := tl (script w)\<rparr>))
           \<lparr>ser := Some True\<rparr>)))))))"

definition booting :: "(int \<times> string) list \<Rightarrow> bool list \<Rightarrow> world" where
  \<comment> \<open>the controller as it starts, before its first connection, with one USB adapter
      plugged in\<close>
  "booting lines sc =
     \<lparr>now = 0, incoming = lines, script = sc, trace = [], ser = None, SERIAL_PORT = None,
      comports = [\<lparr>device = ''/dev/ttyUSB0'', description = None, manufacturer = None\<rparr>],
      gpio_uart_available = False\<rparr>"

section \<open>Properties\<close>

subsection \<open>The wire bytes of the two front ends\<close>

text \<open>
  C4. The command FORWARD, 5, meter: the voice path, from the JSON object
  \<open>{"command": "FORWARD", "value": 5, "unit": "meter"}\<close>, formats the line
  \<open>FORWARD,5,meter\<close>; the operator path, from the input \<open>forward 5\<close>, converts the
  argument with \<open>float\<close> and writes \<open>FORWARD,5.0,meter\<close>, not the line its help text
  shows for this input.
\<close>

theorem forward_5_wire_bytes:
  "serial_cmd [(''command'', PStr ''FORWARD''), (''value'', PInt 5), (''unit'', PStr ''meter'')]
     = ''FORWARD,5,meter'' @ [CHR 0x0A]
   \<and> written (trace (interactive_mode py_float [Typed ''forward 5''] (connected [])))
     = [''FORWARD,5.0,meter'' @ [CHR 0x0A]]"
  by code_simp

text \<open>
  C5. The operator input \<open>raw STATUS,0,none\<close>: the whole line is lower-cased before the
  verb is looked at, so the payload written is \<open>status,0,none\<close> and a newline.
\<close>

theorem raw_status_wire_bytes:
  "written (trace (interactive_mode py_float [Typed ''raw STATUS,0,none''] (connected [])))
     = [''status,0,none'' @ [CHR 0x0A]]"
  by code_simp

text \<open>
  C6. Leaving the operator session by \<open>quit\<close>, by \<open>exit\<close> or by an interrupt closes the
  connection; nothing is written to the link on the way out, so no STOP is sent.
\<close>

theorem exit_closes_without_stop:
  "trace (interactive_mode py_float [Typed ''quit''] (connected []))
     = [Print MonitoringStarted, Print Help, Print Exiting, Close, Print Disconnected]
   \<and> trace (interactive_mode py_float [Typed ''exit''] (connected []))
     = [Print MonitoringStarted, Print Help, Print Exiting, Close, Print Disconnected]
   \<and> trace (interactive_mode py_float [Interrupt] (connected []))
     = [Print MonitoringStarted, Print Help, Print Exiting, Close, Print Disconnected]"
  by code_simp

subsection \<open>The operator's speed command\<close>

lemma py_isspace_lower: "py_isspace (py_lower_char c) = py_isspace c"
  by (auto simp: py_lower_char_def py_isspace_def whitespace_def split: if_splits)

lemma split_acc_cur: "cur \<noteq> [] \<Longrightarrow> split_acc s cur \<noteq> []"
  by (induction s cur rule: split_acc.induct) auto

lemma split_acc_nonempty: "\<exists>c \<in> set s. \<not> py_isspace c \<Longrightarrow> split_acc s cur \<noteq> []"
  by (induction s cur rule: split_acc.induct) (auto simp: split_acc_cur)

lemma py_strip_last: "py_strip s \<noteq> [] \<Longrightarrow> \<not> py_isspace (last (py_strip s))"
  unfolding py_strip_def
  by (metis (mono_tags, lifting) hd_dropWhile last_rev rev_is_Nil_conv)

lemma py_lower_last: "s \<noteq> [] \<Longrightarrow> py_isspace (last (py_lower s)) = py_isspace (last s)"
  by (simp add: py_lower_def last_map py_isspace_lower)

lemma split_acc_word:
  "\<forall>c \<in> set w. \<not> py_isspace c \<Longrightarrow> split_acc (w @ s) cur = split_acc s (rev w @ cur)"
  by (induction w arbitrary: cur) auto

lemma stripped_tokens:
  assumes pre: "py_startswith (py_lower (py_strip line)) (verb @ '' '')"
      and word: "\<forall>c \<in> set verb. \<not> py_isspace c" and ne: "verb \<noteq> []"
  shows "\<exists>arg more. py_split (py_lower (py_strip line)) = verb # arg # more"
proof -
  let ?u = "py_lower (py_strip line)"
  obtain rest where u: "?u = verb @ '' '' @ rest"
    using pre unfolding py_startswith_def by (metis append_take_drop_id append.assoc)
  have sp: "py_isspace (CHR '' '')"
    by (simp add: py_isspace_def whitespace_def)
  have "py_strip line \<noteq> []"
    using u by (auto simp: py_lower_def)
  then have "\<not> py_isspace (last ?u)"
    using py_strip_last [of line] py_lower_last [of "py_strip line"] by simp
  then have rest: "rest \<noteq> []" and "\<not> py_isspace (last rest)"
    using u sp by (auto split: if_splits)
  then have "\<exists>c \<in> set rest. \<not> py_isspace c"
    using last_in_set by blast
  then have "split_acc rest [] \<noteq> []"
    by (rule split_acc_nonempty)
  then obtain arg more where "split_acc rest [] = arg # more"
    by (cases "split_acc rest []") auto
  moreover have "py_split ?u = verb # split_acc rest []"
    using word ne sp by (simp add: py_split_def u split_acc_word)
  ultimately show ?thesis by simp
qed


text \<open>
  C8. An operator line whose verb is \<open>speed\<close> and whose argument converts to a number
  outside \<open>[0, 100]\<close>: the turn of the loop prints the range error and nothing else
  happens; in particular nothing is written to the link. This holds for every
  conversion function, so for Python's \<open>float\<close>.
\<close>

theorem speed_out_of_range_rejected:
  assumes "py_startswith (py_lower (py_strip line)) ''speed ''"
      and "float (py_split (py_lower (py_strip line)) ! 1) = Some speed"
      and "\<not> (float_le (float_of_int 0) speed \<and> float_le speed (float_of_int 100))"
  shows "handle_input float line m = (True, emit (Print SpeedRange) m)
     \<and> written (trace (snd (handle_input float line m))) = written (trace m)"
proof -
  let ?u = "py_lower (py_strip line)"
  have "\<exists>arg more. py_split ?u = ''speed'' # arg # more"
    using assms(1) by (intro stripped_tokens) (auto simp: py_isspace_def whitespace_def)
  then obtain arg more where sp: "py_split ?u = ''speed'' # arg # more" by blast
  with assms(2) have fl: "float arg = Some speed" by simp
  obtain rest where u: "?u = ''speed '' @ rest"
    using assms(1) unfolding py_startswith_def by (metis append_take_drop_id)
  have sc: "speed_command float ?u m = emit (Print SpeedRange) m"
    using assms(3) by (auto simp: speed_command_def sp fl)
  have hi: "handle_input float line m = (True, speed_command float ?u m)"
    unfolding handle_input_def Let_def u by (simp add: py_startswith_def)
  have wr: "written (xs @ [Print p]) = written xs" for xs p
    by (induction xs rule: written.induct) auto
  show ?thesis
    unfolding hi u [symmetric] sc by (simp add: emit_def wr)
qed

theorem speed_out_of_range_rejected_witness:
  "handle_input py_float ''speed 150'' (connected []) = (True, emit (Print SpeedRange) (connected []))
     \<and> written (trace (snd (handle_input py_float ''speed 150'' (connected [])))) = []"
proof -
  have a: "py_startswith (py_lower (py_strip ''speed 150'')) ''speed ''" by code_simp
  have b: "py_float (py_split (py_lower (py_strip ''speed 150'')) ! 1) = Some (Finite False 150 0)"
    by code_simp
  have c: "\<not> (float_le (float_of_int 0) (Finite False 150 0) \<and> float_le (Finite False 150 0) (float_of_int 100))"
    by code_simp
  have d: "written (trace (connected [])) = []" by code_simp
  show ?thesis
    using speed_out_of_range_rejected
      [where line = "''speed 150''" and float = py_float and speed = "Finite False 150 0"
         and m = "connected []", OF a b c]
    unfolding d .
qed

subsection \<open>The voice path forwards any value\<close>

text \<open>
  C7. \<open>send_to_robot\<close> checks neither the name nor the value of the command: the JSON
  object \<open>{"command": "SPEED", "value": 150, "unit": "percent"}\<close> is written to the link
  as \<open>SPEED,150,percent\<close>, and the call reports success.
\<close>

theorem speed_150_is_written:
  "fst (send_to_robot
          (Some (PDict [(''command'', PStr ''SPEED''), (''value'', PInt 150), (''unit'', PStr ''percent'')]))
          (idle 0 [] [])) = True
   \<and> written (trace (snd (send_to_robot
          (Some (PDict [(''command'', PStr ''SPEED''), (''value'', PInt 150), (''unit'', PStr ''percent'')]))
          (idle 0 [] [])))) = [''SPEED,150,percent'' @ [CHR 0x0A]]"
  by code_simp

subsection \<open>Port discovery\<close>

lemma first_priority_find:
  "first_priority names ports = find (\<lambda>n. n \<in> device ` set ports) names"
proof (induction names)
  case Nil
  show ?case by simp
next
  case (Cons n names)
  show ?case
  proof (cases "find (\<lambda>port. device port = n) ports")
    case None
    then have "n \<notin> device ` set ports"
      by (auto simp: find_None_iff)
    with None Cons show ?thesis by simp
  next
    case (Some port)
    then have "device port = n" "port \<in> set ports"
      by (auto simp: find_Some_iff)
    then have "n \<in> device ` set ports" by auto
    with Some \<open>device port = n\<close> show ?thesis by simp
  qed
qed

lemma find_never: "find (\<lambda>n. False) xs = None"
  by (induction xs) auto

text \<open>
  C9, as amended. With a path of the priority list among the enumerated devices, the voice
  controller (whose GPIO flag is off) returns the first path of the priority list that
  is enumerated, whatever the order of the enumeration; the operator tool does so for
  the USB paths of the list when \<open>/dev/ttyS0\<close> does not exist, and returns \<open>/dev/ttyS0\<close>
  whenever that node exists, enumerated or not. With nothing enumerated (and no
  \<open>/dev/ttyS0\<close> node for the operator tool) both return \<open>None\<close>.
\<close>

theorem discovery_priority:
  "(find (\<lambda>n. n \<in> device ` set ports) priority_ports = Some n \<and> set ports' = set ports
      \<longrightarrow> find_esp32_port_rpi gpio ports' = Some n)
   \<and> find_esp32_port_rpi gpio [] = None
   \<and> (find (\<lambda>n. n \<in> device ` set ports) (tl priority_ports) = Some n \<and> set ports' = set ports
      \<longrightarrow> find_esp32_port False ports' = Some n)
   \<and> find_esp32_port True ports = Some ''/dev/ttyS0''
   \<and> find_esp32_port False [] = None"
  by (simp add: find_esp32_port_rpi_def find_esp32_port_def GPIO_UART_ENABLE_def first_priority_find
        find_never)

text \<open>
  The claim as stated fails for the operator tool: with \<open>/dev/ttyS0\<close> on disk and only
  \<open>/dev/ttyUSB0\<close> enumerated, the enumerated priority path is \<open>/dev/ttyUSB0\<close>, and
  \<open>/dev/ttyS0\<close> is returned.
\<close>

theorem discovery_gpio_node_counterexample:
  "\<not> (\<forall>ttyS0_exists ports n.
        find (\<lambda>n. n \<in> device ` set ports) priority_ports = Some n
          \<longrightarrow> find_esp32_port ttyS0_exists ports = Some n)"
proof
  assume a: "\<forall>ttyS0_exists ports n.
        find (\<lambda>n. n \<in> device ` set ports) priority_ports = Some n
          \<longrightarrow> find_esp32_port ttyS0_exists ports = Some n"
  let ?ports = "[\<lparr>device = ''/dev/ttyUSB0'', description = None, manufacturer = None\<rparr>]"
  have "find (\<lambda>n. n \<in> device ` set ?ports) priority_ports = Some ''/dev/ttyUSB0''"
    by (simp add: priority_ports_def GPIO_UART_PORT_def)
  with a have "find_esp32_port True ?ports = Some ''/dev/ttyUSB0''" by blast
  then show False by (simp add: find_esp32_port_def)
qed

theorem discovery_priority_witness:
  "find_esp32_port_rpi False
      [\<lparr>device = ''/dev/ttyACM0'', description = None, manufacturer = None\<rparr>,
       \<lparr>device = ''/dev/ttyUSB1'', description = None, manufacturer = None\<rparr>] = Some ''/dev/ttyUSB1''
   \<and> find_esp32_port_rpi False
      [\<lparr>device = ''/dev/ttyUSB1'', description = None, manufacturer = None\<rparr>,
       \<lparr>device = ''/dev/ttyACM0'', description = None, manufacturer = None\<rparr>] = Some ''/dev/ttyUSB1''
   \<and> find_esp32_port False
      [\<lparr>device = ''/dev/ttyACM0'', description = None, manufacturer = None\<rparr>,
       \<lparr>device = ''/dev/ttyUSB1'', description = None, manufacturer = None\<rparr>] = Some ''/dev/ttyUSB1''
   \<and> find_esp32_port False
      [\<lparr>device = ''/dev/ttyUSB1'', description = None, manufacturer = None\<rparr>,
       \<lparr>device = ''/dev/ttyACM0'', description = None, manufacturer = None\<rparr>] = Some ''/dev/ttyUSB1''"
proof -
  let ?a = "\<lparr>device = ''/dev/ttyACM0'', description = None, manufacturer = None\<rparr>"
  let ?u = "\<lparr>device = ''/dev/ttyUSB1'', description = None, manufacturer = None\<rparr>"
  have f: "find (\<lambda>n. n \<in> device ` set [?a, ?u]) priority_ports = Some ''/dev/ttyUSB1''"
    "find (\<lambda>n. n \<in> device ` set [?a, ?u]) (tl priority_ports) = Some ''/dev/ttyUSB1''"
    by (simp_all add: priority_ports_def GPIO_UART_PORT_def)
  have s: "set [?u, ?a] = set [?a, ?u]" "set [?a, ?u] = set [?a, ?u]" by auto
  show ?thesis
    using discovery_priority [of "[?a, ?u]" "''/dev/ttyUSB1''" "[?a, ?u]" False]
      discovery_priority [of "[?a, ?u]" "''/dev/ttyUSB1''" "[?u, ?a]" False] f s
    by blast
qed

subsection \<open>The primitives of the link\<close>

lemma emit_hw [simp]:
  "now (emit e w) = now w" "incoming (emit e w) = incoming w" "script (emit e w) = script w"
  "trace (emit e w) = trace w @ [e]"
  by (simp_all add: emit_def)

lemma emit_world [simp]:
  "ser (emit e w) = ser w" "SERIAL_PORT (emit e w) = SERIAL_PORT w"
  "comports (emit e w) = comports w" "gpio_uart_available (emit e w) = gpio_uart_available w"
  by (simp_all add: emit_def)

lemma sleep_hw [simp]:
  "now (sleep ms w) = now w + ms" "incoming (sleep ms w) = incoming w"
  "script (sleep ms w) = script w" "trace (sleep ms w) = trace w @ [Sleep ms]"
  by (simp_all add: sleep_def emit_def)

lemma sleep_world [simp]:
  "ser (sleep ms w) = ser w" "SERIAL_PORT (sleep ms w) = SERIAL_PORT w"
  "comports (sleep ms w) = comports w" "gpio_uart_available (sleep ms w) = gpio_uart_available w"
  by (simp_all add: sleep_def emit_def)

lemma reset_input_buffer_hw [simp]:
  "now (reset_input_buffer w) = now w" "script (reset_input_buffer w) = script w"
  "trace (reset_input_buffer w) = trace w @ [ResetInput]"
  "incoming (reset_input_buffer w) = dropWhile (\<lambda>e. fst e \<le> now w) (incoming w)"
  by (simp_all add: reset_input_buffer_def emit_def)

lemma reset_input_buffer_world [simp]:
  "ser (reset_input_buffer w) = ser w" "SERIAL_PORT (reset_input_buffer w) = SERIAL_PORT w"
  by (simp_all add: reset_input_buffer_def emit_def)

lemma ser_write_hw [simp]:
  "fst (ser_write bytes w) = outcome w"
  "now (snd (ser_write bytes w)) = now w" "script (snd (ser_write bytes w)) = tl (script w)"
  "trace (snd (ser_write bytes w)) = trace w @ [Write bytes (outcome w)]"
  "incoming (snd (ser_write bytes w)) = incoming w"
  by (simp_all add: ser_write_def emit_def)

lemma ser_write_world [simp]:
  "ser (snd (ser_write bytes w)) = ser w" "SERIAL_PORT (snd (ser_write bytes w)) = SERIAL_PORT w"
  by (simp_all add: ser_write_def emit_def)

lemma ser_flush_hw [simp]:
  "fst (ser_flush w) = outcome w"
  "now (snd (ser_flush w)) = now w" "script (snd (ser_flush w)) = tl (script w)"
  "trace (snd (ser_flush w)) = trace w @ [Flush (outcome w)]"
  "incoming (snd (ser_flush w)) = incoming w"
  by (simp_all add: ser_flush_def emit_def)

lemma ser_flush_world [simp]:
  "ser (snd (ser_flush w)) = ser w" "SERIAL_PORT (snd (ser_flush w)) = SERIAL_PORT w"
  by (simp_all add: ser_flush_def emit_def)

lemma readline_hw [simp]:
  "now (snd (readline w)) = now w" "trace (snd (readline w)) = trace w"
  "script (snd (readline w)) = script w"
  by (simp_all add: readline_def split: list.splits prod.splits)

lemma readline_world [simp]:
  "ser (snd (readline w)) = ser w" "SERIAL_PORT (snd (readline w)) = SERIAL_PORT w"
  by (simp_all add: readline_def split: list.splits prod.splits)

lemma readline_waiting:
  assumes "in_waiting w"
  obtains t line rest where "incoming w = (t, line) # rest" "t \<le> now w"
    "fst (readline w) = py_ustrip (py_decode line)" "incoming (snd (readline w)) = rest"
  using assms by (auto simp: in_waiting_def readline_def split: list.splits)

lemma not_waiting:
  "\<not> in_waiting w \<Longrightarrow> incoming w = [] \<or> now w < fst (hd (incoming w))"
  by (auto simp: in_waiting_def split: list.splits)

lemma outcome_hw [simp]:
  "outcome (emit e w) = outcome w" "outcome (sleep ms w) = outcome w"
  by (simp_all add: outcome_def)

lemma outcome_world [simp]:
  "outcome (w\<lparr>ser := s\<rparr>) = outcome (w :: world)"
  by (simp add: outcome_def)

subsection \<open>What a trace tells\<close>

lemma responses_append: "responses (xs @ ys) = responses xs @ responses ys"
  by (induction xs rule: responses.induct) auto

lemma written_append: "written (xs @ ys) = written xs @ written ys"
  by (induction xs rule: written.induct) auto

lemma link_events_append: "link_events (xs @ ys) = link_events xs @ link_events ys"
  by (induction xs rule: link_events.induct) auto

lemma elapsed_append: "elapsed (xs @ ys) = elapsed xs + elapsed ys"
  by (induction xs rule: elapsed.induct) auto

lemma last_line_time_none: "responses es = [] \<Longrightarrow> last_line_time prev t es = prev"
  by (induction prev t es rule: last_line_time.induct) auto

lemma event_kinds:
  "(\<exists>ms. e = Sleep ms) \<or> (\<exists>l. e = Print (Response l))
   \<or> (\<forall>xs p t. responses (e # xs) = responses xs \<and> elapsed (e # xs) = elapsed xs
          \<and> last_line_time p t (e # xs) = last_line_time p t xs)"
proof (cases e)
  case (Print m)
  then show ?thesis by (cases m) simp_all
qed simp_all

lemma last_line_time_split:
  "responses es \<noteq> [] \<Longrightarrow>
     \<exists>es1 l es2. es = es1 @ Print (Response l) # es2 \<and> responses es2 = []
        \<and> last_line_time prev t es = t + elapsed es1"
proof (induction es arbitrary: prev t)
  case Nil
  then show ?case by simp
next
  case (Cons e es)
  from event_kinds [of e] consider
      (sleep) ms where "e = Sleep ms"
    | (line) line where "e = Print (Response line)"
    | (other) "\<forall>xs p t. responses (e # xs) = responses xs \<and> elapsed (e # xs) = elapsed xs
          \<and> last_line_time p t (e # xs) = last_line_time p t xs"
    by blast
  then show ?case
  proof cases
    case sleep
    with Cons.prems have "responses es \<noteq> []" by simp
    from Cons.IH [OF this, of prev "t + ms"] obtain es1 l es2 where
      "es = es1 @ Print (Response l) # es2" "responses es2 = []"
      "last_line_time prev (t + ms) es = t + ms + elapsed es1"
      by auto
    then show ?thesis
      unfolding sleep by (intro exI [of _ "Sleep ms # es1"] exI [of _ l] exI [of _ es2]) simp
  next
    case line
    show ?thesis
    proof (cases "responses es = []")
      case True
      then show ?thesis
        unfolding line
        by (intro exI [of _ "[]"] exI [of _ line] exI [of _ es]) (simp add: last_line_time_none)
    next
      case False
      from Cons.IH [OF False, of t t] obtain es1 l es2 where
        "es = es1 @ Print (Response l) # es2" "responses es2 = []"
        "last_line_time t t es = t + elapsed es1"
        by auto
      then show ?thesis
        unfolding line
        by (intro exI [of _ "Print (Response line) # es1"] exI [of _ l] exI [of _ es2]) simp
    qed
  next
    case other
    with Cons.prems have "responses es \<noteq> []" by simp
    from Cons.IH [OF this, of prev t] obtain es1 l es2 where
      "es = es1 @ Print (Response l) # es2" "responses es2 = []"
      "last_line_time prev t es = t + elapsed es1"
      by auto
    then show ?thesis
      using other by (intro exI [of _ "e # es1"] exI [of _ l] exI [of _ es2]) simp
  qed
qed

subsection \<open>Collecting the response\<close>

declare response_loop.simps [simp del] startup_loop.simps [simp del]

lemma response_loop_run:
  assumes "response_loop ts c w = (ts', c', w')"
  shows "\<exists>k es. incoming w' = drop k (incoming w)
           \<and> (\<forall>e \<in> set (take k (incoming w)). fst e \<le> now w')
           \<and> trace w' = trace w @ es
           \<and> responses es = filter (\<lambda>l. l \<noteq> [])
                               (map (\<lambda>e. py_ustrip (py_decode (snd e))) (take k (incoming w)))
           \<and> c' = c + length (responses es)
           \<and> now w' = now w + elapsed es \<and> 0 \<le> elapsed es
           \<and> written es = [] \<and> link_events es = []
           \<and> ser w' = ser w \<and> SERIAL_PORT w' = SERIAL_PORT w \<and> script w' = script w
           \<and> ts' = last_line_time ts (now w) es"
  using assms
proof (induction ts c w rule: response_loop.induct)
  case (1 ts c w)
  show ?case
  proof (cases "now w - ts < 3000")
    case False
    with "1.prems"(1) [unfolded response_loop.simps [of ts c w]]
    have "w' = w" "c' = c" "ts' = ts" by simp_all
    then show ?thesis by (intro exI [of _ 0] exI [of _ "[]"]) simp
  next
    case loop: True
    show ?thesis
    proof (cases "in_waiting w")
      case wait: True
      from readline_waiting [OF wait] obtain t line rest where
        inc: "incoming w = (t, line) # rest" "t \<le> now w"
          "fst (readline w) = py_ustrip (py_decode line)" "incoming (snd (readline w)) = rest"
        by blast
      show ?thesis
      proof (cases "fst (readline w) \<noteq> []")
        case True
        define w1 where "w1 = emit (Led True True) (sleep 50 (emit (Led False False)
                   (emit (Print (Response (fst (readline w)))) (snd (readline w)))))"
        define pre where "pre = [Print (Response (py_ustrip (py_decode line))), Led False False,
                                 Sleep 50, Led True True]"
        have run: "response_loop (now w) (c + 1) w1 = (ts', c', w')"
          using "1.prems"(1) [unfolded response_loop.simps [of ts c w]] loop wait True
          unfolding w1_def by simp
        have w1: "incoming w1 = rest" "trace w1 = trace w @ pre" "now w1 = now w + 50"
          "ser w1 = ser w" "SERIAL_PORT w1 = SERIAL_PORT w" "script w1 = script w"
          by (simp_all add: w1_def pre_def inc)
        from "1.IH"(1) [OF loop wait True run [unfolded w1_def]] obtain k es where
          k: "incoming w' = drop k (incoming w1)"
             "\<forall>e \<in> set (take k (incoming w1)). fst e \<le> now w'"
             "trace w' = trace w1 @ es"
             "responses es = filter (\<lambda>l. l \<noteq> [])
                               (map (\<lambda>e. py_ustrip (py_decode (snd e))) (take k (incoming w1)))"
             "c' = c + 1 + length (responses es)"
             "now w' = now w1 + elapsed es" "0 \<le> elapsed es"
             "written es = []" "link_events es = []"
             "ser w' = ser w1" "SERIAL_PORT w' = SERIAL_PORT w1" "script w' = script w1"
             "ts' = last_line_time (now w) (now w1) es"
          unfolding w1_def by auto
        have ne: "py_ustrip (py_decode line) \<noteq> []"
          using True inc(3) by simp
        show ?thesis
          using k ne inc(2)
          by (intro exI [of _ "Suc k"] exI [of _ "pre @ es"])
             (simp add: w1 inc(1) responses_append written_append link_events_append
                elapsed_append pre_def)
      next
        case False
        have run: "response_loop ts c (snd (readline w)) = (ts', c', w')"
          using "1.prems"(1) [unfolded response_loop.simps [of ts c w]] loop wait False by simp
        from "1.IH"(2) [OF loop wait False run] obtain k es where
          k: "incoming w' = drop k rest"
             "\<forall>e \<in> set (take k rest). fst e \<le> now w'"
             "trace w' = trace w @ es"
             "responses es = filter (\<lambda>l. l \<noteq> [])
                               (map (\<lambda>e. py_ustrip (py_decode (snd e))) (take k rest))"
             "c' = c + length (responses es)"
             "now w' = now w + elapsed es" "0 \<le> elapsed es"
             "written es = []" "link_events es = []"
             "ser w' = ser w" "SERIAL_PORT w' = SERIAL_PORT w" "script w' = script w"
             "ts' = last_line_time ts (now w) es"
          by (auto simp: inc(4))
        have e: "py_ustrip (py_decode line) = []"
          using False inc(3) by simp
        show ?thesis
          using k e inc(2)
          by (intro exI [of _ "Suc k"] exI [of _ es]) (simp add: inc(1))
      qed
    next
      case nowait: False
      show ?thesis
      proof (cases "c > 0 \<and> now (sleep 50 w) - ts > 1000")
        case True
        then have "ts' = ts" "c' = c" "w' = sleep 50 w"
          using "1.prems"(1) [unfolded response_loop.simps [of ts c w]] loop nowait by simp_all
        then show ?thesis
          by (intro exI [of _ 0] exI [of _ "[Sleep 50]"]) simp
      next
        case False
        have run: "response_loop ts c (sleep 50 w) = (ts', c', w')"
          using "1.prems"(1) [unfolded response_loop.simps [of ts c w]] loop nowait False
          by (simp split: if_splits)
        from "1.IH"(3) [OF loop nowait False run] obtain k es where
          k: "incoming w' = drop k (incoming w)"
             "\<forall>e \<in> set (take k (incoming w)). fst e \<le> now w'"
             "trace w' = trace w @ Sleep 50 # es"
             "responses es = filter (\<lambda>l. l \<noteq> [])
                               (map (\<lambda>e. py_ustrip (py_decode (snd e))) (take k (incoming w)))"
             "c' = c + length (responses es)"
             "now w' = now w + 50 + elapsed es" "0 \<le> elapsed es"
             "written es = []" "link_events es = []"
             "ser w' = ser w" "SERIAL_PORT w' = SERIAL_PORT w" "script w' = script w"
             "ts' = last_line_time ts (now w + 50) es"
          by auto
        show ?thesis
          using k by (intro exI [of _ k] exI [of _ "Sleep 50 # es"]) simp
      qed
    qed
  qed
qed

lemma response_loop_timing:
  assumes "response_loop ts c w = (ts', c', w')"
      and "(now w - ts) mod 50 = 0" and "0 \<le> now w - ts"
      and "now w - ts \<le> (if c = 0 then 3000 else 1000)"
  shows "if c' = 0 then c = 0 \<and> ts' = ts \<and> now w' = ts + 3000 else now w' = ts' + 1050"
  using assms
proof (induction ts c w rule: response_loop.induct)
  case (1 ts c w)
  from "1.prems"(2) obtain n where n: "now w - ts = 50 * n"
    by (auto simp: mod_eq_0_iff_dvd)
  show ?case
  proof (cases "now w - ts < 3000")
    case False
    with "1.prems"(2-) "1.prems"(1) [unfolded response_loop.simps [of ts c w]] show ?thesis
      by (simp split: if_splits)
  next
    case loop: True
    show ?thesis
    proof (cases "in_waiting w")
      case wait: True
      show ?thesis
      proof (cases "fst (readline w) \<noteq> []")
        case True
        let ?w1 = "emit (Led True True) (sleep 50 (emit (Led False False)
                   (emit (Print (Response (fst (readline w)))) (snd (readline w)))))"
        have run: "response_loop (now w) (c + 1) ?w1 = (ts', c', w')"
          using "1.prems"(1) [unfolded response_loop.simps [of ts c w]] loop wait True by simp
        have nw: "now ?w1 = now w + 50"
          by simp
        from "1.IH"(1) [OF loop wait True run] nw show ?thesis
          by (simp split: if_splits)
      next
        case False
        have run: "response_loop ts c (snd (readline w)) = (ts', c', w')"
          using "1.prems"(1) [unfolded response_loop.simps [of ts c w]] loop wait False by simp
        from "1.IH"(2) [OF loop wait False run] "1.prems" show ?thesis
          by simp
      qed
    next
      case nowait: False
      have nw: "now (sleep 50 w) - ts = 50 * (n + 1)"
        using n by simp
      show ?thesis
      proof (cases "c > 0 \<and> now (sleep 50 w) - ts > 1000")
        case True
        then have r: "ts' = ts" "c' = c" "w' = sleep 50 w"
          using "1.prems"(1) [unfolded response_loop.simps [of ts c w]] loop nowait by simp_all
        have "n \<le> 20" "20 < n + 1"
          using True "1.prems"(4) n nw by (simp_all split: if_splits)
        then have "n = 20" by simp
        with n True r show ?thesis by simp
      next
        case False
        have run: "response_loop ts c (sleep 50 w) = (ts', c', w')"
          using "1.prems"(1) [unfolded response_loop.simps [of ts c w]] loop nowait False
          by (simp split: if_splits)
        have m: "(now (sleep 50 w) - ts) mod 50 = 0"
          unfolding nw by simp
        have "n < 60" using loop n by simp
        then have b: "now (sleep 50 w) - ts \<le> (if c = 0 then 3000 else 1000)"
          using False nw by (auto split: if_splits)
        have p: "0 \<le> now (sleep 50 w) - ts"
          using "1.prems"(3) by simp
        from "1.IH"(3) [OF loop nowait False run m p b] show ?thesis .
      qed
    qed
  qed
qed

lemma response_loop_fresh:
  assumes "response_loop ts c w = (ts', c', w')"
      and "now w - ts < 3000 \<or> incoming w = [] \<or> now w - 50 < fst (hd (incoming w))"
  shows "incoming w' = [] \<or> now w' - 50 < fst (hd (incoming w'))"
  using assms
proof (induction ts c w rule: response_loop.induct)
  case (1 ts c w)
  show ?case
  proof (cases "now w - ts < 3000")
    case False
    with "1.prems"(2) "1.prems"(1) [unfolded response_loop.simps [of ts c w]] show ?thesis
      by simp
  next
    case loop: True
    show ?thesis
    proof (cases "in_waiting w")
      case wait: True
      show ?thesis
      proof (cases "fst (readline w) \<noteq> []")
        case True
        let ?w1 = "emit (Led True True) (sleep 50 (emit (Led False False)
                   (emit (Print (Response (fst (readline w)))) (snd (readline w)))))"
        have run: "response_loop (now w) (c + 1) ?w1 = (ts', c', w')"
          using "1.prems"(1) [unfolded response_loop.simps [of ts c w]] loop wait True by simp
        have "now ?w1 - now w < 3000" by simp
        with "1.IH"(1) [OF loop wait True run] show ?thesis by blast
      next
        case False
        have run: "response_loop ts c (snd (readline w)) = (ts', c', w')"
          using "1.prems"(1) [unfolded response_loop.simps [of ts c w]] loop wait False by simp
        have "now (snd (readline w)) - ts < 3000" using loop by simp
        with "1.IH"(2) [OF loop wait False run] show ?thesis by blast
      qed
    next
      case nowait: False
      from not_waiting [OF nowait] have
        f: "incoming (sleep 50 w) = [] \<or> now (sleep 50 w) - 50 < fst (hd (incoming (sleep 50 w)))"
        by simp
      show ?thesis
      proof (cases "c > 0 \<and> now (sleep 50 w) - ts > 1000")
        case True
        then have "w' = sleep 50 w"
          using "1.prems"(1) [unfolded response_loop.simps [of ts c w]] loop nowait by simp
        with f show ?thesis by simp
      next
        case False
        have run: "response_loop ts c (sleep 50 w) = (ts', c', w')"
          using "1.prems"(1) [unfolded response_loop.simps [of ts c w]] loop nowait False
          by (simp split: if_splits)
        from "1.IH"(3) [OF loop nowait False run] f show ?thesis by blast
      qed
    qed
  qed
qed

text \<open>
  C1. Every run of the loop that collects the response, entered at time \<open>now w\<close> with no
  line counted. The loop takes a prefix of the device's queue, each line of it at or after
  its arrival, and leaves no line that was waiting at its last poll: the first line left
  arrived in the last 50 ms or is still to come. It prints the non-empty decoded and
  stripped lines of the prefix, in arrival order, and counts them. \<open>last_activity\<close> is
  restarted by each of them: it ends as the time at which the last one was printed. With
  at least one line the loop ends at the first poll more than one second after that time,
  and with no line it ends 3000 ms after it started. The clock is the model's: it
  advances in the sleeps.
\<close>

theorem response_collection:
  assumes "response_loop (now w) 0 w = (last_activity, received, w')"
  shows "\<exists>k es. incoming w' = drop k (incoming w)
           \<and> (\<forall>e \<in> set (take k (incoming w)). fst e \<le> now w')
           \<and> (incoming w' = [] \<or> now w' - 50 < fst (hd (incoming w')))
           \<and> trace w' = trace w @ es
           \<and> responses es = filter (\<lambda>l. l \<noteq> [])
                               (map (\<lambda>e. py_ustrip (py_decode (snd e))) (take k (incoming w)))
           \<and> received = length (responses es)
           \<and> now w' = now w + elapsed es
           \<and> (if responses es = [] then last_activity = now w
               else \<exists>es1 l es2. es = es1 @ Print (Response l) # es2 \<and> responses es2 = []
                      \<and> last_activity = now w + elapsed es1)
           \<and> quiet_window_policy 3000 1000 50 (now w) last_activity received (now w')"
proof -
  from response_loop_run [OF assms] obtain k es where
    k: "incoming w' = drop k (incoming w)"
       "\<forall>e \<in> set (take k (incoming w)). fst e \<le> now w'"
       "trace w' = trace w @ es"
       "responses es = filter (\<lambda>l. l \<noteq> [])
                         (map (\<lambda>e. py_ustrip (py_decode (snd e))) (take k (incoming w)))"
       "received = length (responses es)"
       "now w' = now w + elapsed es"
       "last_activity = last_line_time (now w) (now w) es"
    by auto
  have fresh: "incoming w' = [] \<or> now w' - 50 < fst (hd (incoming w'))"
    by (rule response_loop_fresh [OF assms]) simp
  have "if received = 0 then (0::nat) = 0 \<and> last_activity = now w \<and> now w' = now w + 3000
        else now w' = last_activity + 1050"
    by (rule response_loop_timing [OF assms]) simp_all
  then have policy: "quiet_window_policy 3000 1000 50 (now w) last_activity received (now w')"
    by (simp add: quiet_window_policy_def split: if_splits)
  have last: "if responses es = [] then last_activity = now w
              else \<exists>es1 l es2. es = es1 @ Print (Response l) # es2 \<and> responses es2 = []
                     \<and> last_activity = now w + elapsed es1"
    using last_line_time_split [of es "now w" "now w"] k(7)
    by (simp add: last_line_time_none)
  show ?thesis
    using k(1-6) fresh last policy by (intro exI [of _ k] exI [of _ es]) simp
qed

theorem response_collection_witness:
  "response_loop 0 0 (idle 0 [(200, ''A'' @ [CHR 0x0A]), (500, ''B'' @ [CHR 0x0A])] [])
     = (500, 2, snd (snd (response_loop 0 0
           (idle 0 [(200, ''A'' @ [CHR 0x0A]), (500, ''B'' @ [CHR 0x0A])] []))))
   \<and> now (snd (snd (response_loop 0 0
           (idle 0 [(200, ''A'' @ [CHR 0x0A]), (500, ''B'' @ [CHR 0x0A])] [])))) = 1550
   \<and> responses (trace (snd (snd (response_loop 0 0
           (idle 0 [(200, ''A'' @ [CHR 0x0A]), (500, ''B'' @ [CHR 0x0A])] [])))))
       = [text_of ''A'', text_of ''B'']
   \<and> incoming (snd (snd (response_loop 0 0
           (idle 0 [(200, ''A'' @ [CHR 0x0A]), (500, ''B'' @ [CHR 0x0A])] [])))) = []
   \<and> quiet_window_policy 3000 1000 50 0 500 2 1550
   \<and> response_loop 0 0 (idle 0 [(200, ''OK'' @ [CHR 0x0A])] [])
     = (200, 1, snd (snd (response_loop 0 0 (idle 0 [(200, ''OK'' @ [CHR 0x0A])] []))))
   \<and> now (snd (snd (response_loop 0 0 (idle 0 [(200, ''OK'' @ [CHR 0x0A])] [])))) = 1250
   \<and> response_loop 0 0 (idle 0 [(200, [CHR 0xFF, CHR 0x0A])] [])
     = (0, 0, snd (snd (response_loop 0 0 (idle 0 [(200, [CHR 0xFF, CHR 0x0A])] []))))
   \<and> now (snd (snd (response_loop 0 0 (idle 0 [(200, [CHR 0xFF, CHR 0x0A])] [])))) = 3000
   \<and> responses (trace (snd (snd (response_loop 0 0 (idle 0 [(200, [CHR 0xFF, CHR 0x0A])] []))))) = []
   \<and> quiet_window_policy 3000 1000 50 0 0 0 3000"
proof -
  let ?w = "idle 0 [(200, ''A'' @ [CHR 0x0A]), (500, ''B'' @ [CHR 0x0A])] []"
  let ?u = "idle 0 [(200, ''OK'' @ [CHR 0x0A])] []"
  let ?v = "idle 0 [(200, [CHR 0xFF, CHR 0x0A])] []"
  have n: "now ?w = 0" "now ?v = 0" by (simp_all add: idle_def)
  have a: "fst (response_loop 0 0 ?w) = 500" "fst (snd (response_loop 0 0 ?w)) = 2"
    "now (snd (snd (response_loop 0 0 ?w))) = 1550"
    "responses (trace (snd (snd (response_loop 0 0 ?w)))) = [text_of ''A'', text_of ''B'']"
    "incoming (snd (snd (response_loop 0 0 ?w))) = []"
    by code_simp+
  have u: "fst (response_loop 0 0 ?u) = 200" "fst (snd (response_loop 0 0 ?u)) = 1"
    "now (snd (snd (response_loop 0 0 ?u))) = 1250"
    by code_simp+
  have b: "fst (response_loop 0 0 ?v) = 0" "fst (snd (response_loop 0 0 ?v)) = 0"
    "now (snd (snd (response_loop 0 0 ?v))) = 3000"
    "responses (trace (snd (snd (response_loop 0 0 ?v)))) = []"
    by code_simp+
  have ra: "response_loop (now ?w) 0 ?w = (500, 2, snd (snd (response_loop 0 0 ?w)))"
    unfolding n using a(1,2) by (metis prod.collapse)
  have ru: "response_loop 0 0 ?u = (200, 1, snd (snd (response_loop 0 0 ?u)))"
    using u(1,2) by (metis prod.collapse)
  have rb: "response_loop (now ?v) 0 ?v = (0, 0, snd (snd (response_loop 0 0 ?v)))"
    unfolding n using b(1,2) by (metis prod.collapse)
  from response_collection [OF ra] have qa: "quiet_window_policy 3000 1000 50 0 500 2 1550"
    unfolding n a(3) by blast
  from response_collection [OF rb] have qb: "quiet_window_policy 3000 1000 50 0 0 0 3000"
    unfolding n b(3) by blast
  show ?thesis
    using ra ru rb qa qb a(3,4,5) u(3) b(3,4) unfolding n by blast
qed

subsection \<open>The handshake\<close>

lemma startup_loop_run:
  assumes "startup_loop ts w = (ts', w')"
  shows "\<exists>k es. incoming w' = drop k (incoming w)
           \<and> (\<forall>e \<in> set (take k (incoming w)). fst e \<le> now w')
           \<and> trace w' = trace w @ es
           \<and> responses es = filter (\<lambda>l. l \<noteq> [])
                               (map (\<lambda>e. py_ustrip (py_decode (snd e))) (take k (incoming w)))
           \<and> now w' = now w + elapsed es \<and> 0 \<le> elapsed es
           \<and> written es = [] \<and> link_events es = []
           \<and> ser w' = ser w \<and> SERIAL_PORT w' = SERIAL_PORT w \<and> script w' = script w
           \<and> ts' = last_line_time ts (now w) es"
  using assms
proof (induction ts w rule: startup_loop.induct)
  case (1 ts w)
  note step = startup_loop.simps [of ts w]
  show ?case
  proof (cases "now w - ts < 3000")
    case False
    with "1.prems"(1) [unfolded step] have "w' = w" "ts' = ts" by simp_all
    then show ?thesis by (intro exI [of _ 0] exI [of _ "[]"]) simp
  next
    case loop: True
    show ?thesis
    proof (cases "in_waiting w")
      case wait: True
      from readline_waiting [OF wait] obtain t line rest where
        inc: "incoming w = (t, line) # rest" "t \<le> now w"
          "fst (readline w) = py_ustrip (py_decode line)" "incoming (snd (readline w)) = rest"
        by blast
      show ?thesis
      proof (cases "fst (readline w) \<noteq> []")
        case True
        define w1 where "w1 = emit (Print (Response (fst (readline w)))) (snd (readline w))"
        have run: "startup_loop (now w) w1 = (ts', w')"
          using "1.prems"(1) [unfolded step] loop wait True unfolding w1_def by simp
        have w1: "incoming w1 = rest"
          "trace w1 = trace w @ [Print (Response (py_ustrip (py_decode line)))]"
          "now w1 = now w"
          "ser w1 = ser w" "SERIAL_PORT w1 = SERIAL_PORT w" "script w1 = script w"
          by (simp_all add: w1_def inc)
        from "1.IH"(1) [OF loop wait True run [unfolded w1_def]] obtain k es where
          k: "incoming w' = drop k (incoming w1)"
             "\<forall>e \<in> set (take k (incoming w1)). fst e \<le> now w'"
             "trace w' = trace w1 @ es"
             "responses es = filter (\<lambda>l. l \<noteq> [])
                               (map (\<lambda>e. py_ustrip (py_decode (snd e))) (take k (incoming w1)))"
             "now w' = now w1 + elapsed es" "0 \<le> elapsed es"
             "written es = []" "link_events es = []"
             "ser w' = ser w1" "SERIAL_PORT w' = SERIAL_PORT w1" "script w' = script w1"
             "ts' = last_line_time (now w) (now w1) es"
          unfolding w1_def by auto
        have ne: "py_ustrip (py_decode line) \<noteq> []"
          using True inc(3) by simp
        show ?thesis
          using k ne inc(2)
          by (intro exI [of _ "Suc k"]
                exI [of _ "Print (Response (py_ustrip (py_decode line))) # es"])
             (simp add: w1 inc(1))
      next
        case False
        have run: "startup_loop ts (snd (readline w)) = (ts', w')"
          using "1.prems"(1) [unfolded step] loop wait False by simp
        from "1.IH"(2) [OF loop wait False run] obtain k es where
          k: "incoming w' = drop k rest"
             "\<forall>e \<in> set (take k rest). fst e \<le> now w'"
             "trace w' = trace w @ es"
             "responses es = filter (\<lambda>l. l \<noteq> [])
                               (map (\<lambda>e. py_ustrip (py_decode (snd e))) (take k rest))"
             "now w' = now w + elapsed es" "0 \<le> elapsed es"
             "written es = []" "link_events es = []"
             "ser w' = ser w" "SERIAL_PORT w' = SERIAL_PORT w" "script w' = script w"
             "ts' = last_line_time ts (now w) es"
          by (auto simp: inc(4))
        have e: "py_ustrip (py_decode line) = []"
          using False inc(3) by simp
        show ?thesis
          using k e inc(2)
          by (intro exI [of _ "Suc k"] exI [of _ es]) (simp add: inc(1))
      qed
    next
      case nowait: False
      have run: "startup_loop ts (sleep 100 w) = (ts', w')"
        using "1.prems"(1) [unfolded step] loop nowait by simp
      from "1.IH"(3) [OF loop nowait run] obtain k es where
        k: "incoming w' = drop k (incoming w)"
           "\<forall>e \<in> set (take k (incoming w)). fst e \<le> now w'"
           "trace w' = trace w @ Sleep 100 # es"
           "responses es = filter (\<lambda>l. l \<noteq> [])
                             (map (\<lambda>e. py_ustrip (py_decode (snd e))) (take k (incoming w)))"
           "now w' = now w + 100 + elapsed es" "0 \<le> elapsed es"
           "written es = []" "link_events es = []"
           "ser w' = ser w" "SERIAL_PORT w' = SERIAL_PORT w" "script w' = script w"
           "ts' = last_line_time ts (now w + 100) es"
        by auto
      show ?thesis
        using k by (intro exI [of _ k] exI [of _ "Sleep 100 # es"]) simp
    qed
  qed
qed

lemma startup_loop_timing:
  assumes "startup_loop ts w = (ts', w')"
      and "(now w - ts) mod 100 = 0" and "0 \<le> now w - ts" and "now w - ts \<le> 3000"
  shows "now w' = ts' + 3000"
  using assms
proof (induction ts w rule: startup_loop.induct)
  case (1 ts w)
  note step = startup_loop.simps [of ts w]
  from "1.prems"(2) obtain n where n: "now w - ts = 100 * n"
    by (auto simp: mod_eq_0_iff_dvd)
  show ?case
  proof (cases "now w - ts < 3000")
    case False
    with "1.prems"(4) "1.prems"(1) [unfolded step] show ?thesis by simp
  next
    case loop: True
    show ?thesis
    proof (cases "in_waiting w")
      case wait: True
      show ?thesis
      proof (cases "fst (readline w) \<noteq> []")
        case True
        let ?w1 = "emit (Print (Response (fst (readline w)))) (snd (readline w))"
        have run: "startup_loop (now w) ?w1 = (ts', w')"
          using "1.prems"(1) [unfolded step] loop wait True by simp
        from "1.IH"(1) [OF loop wait True run] show ?thesis by simp
      next
        case False
        have run: "startup_loop ts (snd (readline w)) = (ts', w')"
          using "1.prems"(1) [unfolded step] loop wait False by simp
        from "1.IH"(2) [OF loop wait False run] "1.prems" show ?thesis by simp
      qed
    next
      case nowait: False
      have run: "startup_loop ts (sleep 100 w) = (ts', w')"
        using "1.prems"(1) [unfolded step] loop nowait by simp
      have nw: "now (sleep 100 w) - ts = 100 * (n + 1)"
        using n by simp
      have m: "(now (sleep 100 w) - ts) mod 100 = 0"
        unfolding nw by simp
      have "n < 30" using loop n by simp
      then have b: "now (sleep 100 w) - ts \<le> 3000"
        using nw by simp
      have p: "0 \<le> now (sleep 100 w) - ts"
        using "1.prems"(3) by simp
      from "1.IH"(3) [OF loop nowait run m p b] show ?thesis .
    qed
  qed
qed

lemma startup_loop_fresh:
  assumes "startup_loop ts w = (ts', w')"
      and "now w - ts < 3000 \<or> incoming w = [] \<or> now w - 100 < fst (hd (incoming w))"
  shows "incoming w' = [] \<or> now w' - 100 < fst (hd (incoming w'))"
  using assms
proof (induction ts w rule: startup_loop.induct)
  case (1 ts w)
  note step = startup_loop.simps [of ts w]
  show ?case
  proof (cases "now w - ts < 3000")
    case False
    with "1.prems"(2) "1.prems"(1) [unfolded step] show ?thesis by simp
  next
    case loop: True
    show ?thesis
    proof (cases "in_waiting w")
      case wait: True
      show ?thesis
      proof (cases "fst (readline w) \<noteq> []")
        case True
        let ?w1 = "emit (Print (Response (fst (readline w)))) (snd (readline w))"
        have run: "startup_loop (now w) ?w1 = (ts', w')"
          using "1.prems"(1) [unfolded step] loop wait True by simp
        have "now ?w1 - now w < 3000" by simp
        with "1.IH"(1) [OF loop wait True run] show ?thesis by blast
      next
        case False
        have run: "startup_loop ts (snd (readline w)) = (ts', w')"
          using "1.prems"(1) [unfolded step] loop wait False by simp
        have "now (snd (readline w)) - ts < 3000" using loop by simp
        with "1.IH"(2) [OF loop wait False run] show ?thesis by blast
      qed
    next
      case nowait: False
      have run: "startup_loop ts (sleep 100 w) = (ts', w')"
        using "1.prems"(1) [unfolded step] loop nowait by simp
      from not_waiting [OF nowait] have
        "incoming (sleep 100 w) = [] \<or> now (sleep 100 w) - 100 < fst (hd (incoming (sleep 100 w)))"
        by simp
      with "1.IH"(3) [OF loop nowait run] show ?thesis by blast
    qed
  qed
qed

lemma handshake_state_fields:
  "now (handshake_state port w) = now w + 3500"
  "incoming (handshake_state port w) = dropWhile (\<lambda>e. fst e \<le> now w + 3000) (incoming w)"
  "trace (handshake_state port w) =
     trace w @ [Led True False, Open port True, Sleep 3000, ResetInput, ResetOutput,
                Print (Connected port),
                Write (''STATUS,0,none'' @ [CHR 0x0A]) (outcome (w\<lparr>script := tl (script w)\<rparr>)),
                Sleep 500]"
  "ser (handshake_state port w) = Some True"
  "SERIAL_PORT (handshake_state port w) = Some port"
  by (simp_all add: handshake_state_def outcome_def)

lemma init_serial_ok_eq:
  assumes port: "(if SERIAL_PORT w = None
                  then find_esp32_port_rpi (gpio_uart_available w) (comports w)
                  else SERIAL_PORT w) = Some port"
      and opened: "outcome w" and wrote: "outcome (w\<lparr>script := tl (script w)\<rparr>)"
  shows "init_serial w =
     (True, emit (Led True True)
        (snd (startup_loop (now (handshake_state port w)) (handshake_state port w))))"
proof (cases "SERIAL_PORT w")
  case None
  with port have "find_esp32_port_rpi (gpio_uart_available w) (comports w) = Some port" by simp
  with None show ?thesis
    using opened wrote
    by (simp add: init_serial_def Let_def case_prod_beta outcome_def handshake_state_def)
next
  case (Some p)
  with port have p: "p = port" by simp
  have eq: "(emit (Led True False) w)\<lparr>SERIAL_PORT := Some port, script := tl (script w)\<rparr>
      = (emit (Led True False) w)\<lparr>script := tl (script w)\<rparr>"
    using Some p by (simp add: emit_def)
  show ?thesis
    using Some p opened wrote unfolding handshake_state_def eq
    by (simp add: init_serial_def Let_def case_prod_beta outcome_def)
qed

lemma handshake_events:
  assumes port: "(if SERIAL_PORT w = None
                  then find_esp32_port_rpi (gpio_uart_available w) (comports w)
                  else SERIAL_PORT w) = Some port"
      and opened: "outcome w" and wrote: "outcome (w\<lparr>script := tl (script w)\<rparr>)"
  shows "fst (init_serial w) = True \<and> ser (snd (init_serial w)) = Some True
     \<and> SERIAL_PORT (snd (init_serial w)) = Some port
     \<and> (\<exists>k es. trace (snd (init_serial w)) =
            trace w @ [Led True False, Open port True, Sleep 3000, ResetInput, ResetOutput,
                       Print (Connected port), Write (''STATUS,0,none'' @ [CHR 0x0A]) True, Sleep 500]
              @ es @ [Led True True]
          \<and> incoming (snd (init_serial w)) =
              drop k (dropWhile (\<lambda>e. fst e \<le> now w + 3000) (incoming w))
          \<and> (\<forall>e \<in> set (take k (dropWhile (\<lambda>e. fst e \<le> now w + 3000) (incoming w))).
                fst e \<le> now (snd (init_serial w)))
          \<and> (incoming (snd (init_serial w)) = []
              \<or> now (snd (init_serial w)) - 100 < fst (hd (incoming (snd (init_serial w)))))
          \<and> responses es = filter (\<lambda>l. l \<noteq> [])
               (map (\<lambda>e. py_ustrip (py_decode (snd e)))
                  (take k (dropWhile (\<lambda>e. fst e \<le> now w + 3000) (incoming w))))
          \<and> written es = [] \<and> link_events es = []
          \<and> now (snd (init_serial w)) = now w + 3500 + elapsed es
          \<and> (if responses es = [] then now (snd (init_serial w)) = now w + 6500
              else \<exists>es1 l es2. es = es1 @ Print (Response l) # es2 \<and> responses es2 = []
                     \<and> now (snd (init_serial w)) = now w + 3500 + elapsed es1 + 3000))"
proof -
  define w6 where "w6 = handshake_state port w"
  define q where "q = dropWhile (\<lambda>e. fst e \<le> now w + 3000) (incoming w)"
  obtain ts w7 where loop: "startup_loop (now w6) w6 = (ts, w7)"
    by (cases "startup_loop (now w6) w6") auto
  have run: "init_serial w = (True, emit (Led True True) w7)"
    using init_serial_ok_eq [OF port opened wrote] loop unfolding w6_def by simp
  have w6: "now w6 = now w + 3500" "incoming w6 = q"
    "trace w6 = trace w @ [Led True False, Open port True, Sleep 3000, ResetInput, ResetOutput,
                       Print (Connected port), Write (''STATUS,0,none'' @ [CHR 0x0A]) True, Sleep 500]"
    "ser w6 = Some True" "SERIAL_PORT w6 = Some port"
    unfolding w6_def q_def using wrote by (simp_all add: handshake_state_fields)
  from startup_loop_run [OF loop] obtain k es where
    k: "incoming w7 = drop k q"
       "\<forall>e \<in> set (take k q). fst e \<le> now w7"
       "trace w7 = trace w6 @ es"
       "responses es = filter (\<lambda>l. l \<noteq> []) (map (\<lambda>e. py_ustrip (py_decode (snd e))) (take k q))"
       "now w7 = now w6 + elapsed es"
       "written es = []" "link_events es = []"
       "ser w7 = ser w6" "SERIAL_PORT w7 = SERIAL_PORT w6"
       "ts = last_line_time (now w6) (now w6) es"
    unfolding w6(2) by auto
  have t: "now w7 = ts + 3000"
    by (rule startup_loop_timing [OF loop]) simp_all
  have fresh: "incoming w7 = [] \<or> now w7 - 100 < fst (hd (incoming w7))"
    by (rule startup_loop_fresh [OF loop]) simp
  have last: "if responses es = [] then now w7 = now w + 6500
              else \<exists>es1 l es2. es = es1 @ Print (Response l) # es2 \<and> responses es2 = []
                     \<and> now w7 = now w + 3500 + elapsed es1 + 3000"
  proof (cases "responses es = []")
    case True
    with k(10) t w6(1) show ?thesis by (simp add: last_line_time_none)
  next
    case False
    from last_line_time_split [OF False, of "now w6" "now w6"] obtain es1 l es2 where
      "es = es1 @ Print (Response l) # es2" "responses es2 = []"
      "last_line_time (now w6) (now w6) es = now w6 + elapsed es1"
      by blast
    with k(10) t w6(1) have "es = es1 @ Print (Response l) # es2 \<and> responses es2 = []
        \<and> now w7 = now w + 3500 + elapsed es1 + 3000"
      by simp
    with False show ?thesis by auto
  qed
  define W where "W = snd (init_serial w)"
  have W: "now W = now w7" "incoming W = incoming w7" "trace W = trace w7 @ [Led True True]"
    "ser W = ser w7" "SERIAL_PORT W = SERIAL_PORT w7"
    by (simp_all add: W_def run)
  have c1: "trace W =
            trace w @ [Led True False, Open port True, Sleep 3000, ResetInput, ResetOutput,
                       Print (Connected port), Write (''STATUS,0,none'' @ [CHR 0x0A]) True, Sleep 500]
              @ es @ [Led True True]"
    by (simp add: W(3) k(3) w6(3))
  have c2: "incoming W = drop k q"
    by (simp add: W(2) k(1))
  have c3: "\<forall>e \<in> set (take k q). fst e \<le> now W"
    using k(2) by (simp add: W(1))
  have c4: "incoming W = [] \<or> now W - 100 < fst (hd (incoming W))"
    using fresh by (simp add: W(1,2))
  have c5: "now W = now w + 3500 + elapsed es"
    by (simp add: W(1) k(5) w6(1))
  have c6: "if responses es = [] then now W = now w + 6500
            else \<exists>es1 l es2. es = es1 @ Print (Response l) # es2 \<and> responses es2 = []
                   \<and> now W = now w + 3500 + elapsed es1 + 3000"
    using last unfolding W(1) .
  have c7: "fst (init_serial w) = True" "ser W = Some True" "SERIAL_PORT W = Some port"
    using k(8,9) w6(4,5) by (simp_all add: run W(4,5))
  have "\<exists>k es. trace W =
            trace w @ [Led True False, Open port True, Sleep 3000, ResetInput, ResetOutput,
                       Print (Connected port), Write (''STATUS,0,none'' @ [CHR 0x0A]) True, Sleep 500]
              @ es @ [Led True True]
          \<and> incoming W = drop k q
          \<and> (\<forall>e \<in> set (take k q). fst e \<le> now W)
          \<and> (incoming W = [] \<or> now W - 100 < fst (hd (incoming W)))
          \<and> responses es = filter (\<lambda>l. l \<noteq> [])
               (map (\<lambda>e. py_ustrip (py_decode (snd e))) (take k q))
          \<and> written es = [] \<and> link_events es = []
          \<and> now W = now w + 3500 + elapsed es
          \<and> (if responses es = [] then now W = now w + 6500
              else \<exists>es1 l es2. es = es1 @ Print (Response l) # es2 \<and> responses es2 = []
                     \<and> now W = now w + 3500 + elapsed es1 + 3000)"
    using c1 c2 c3 c4 k(4) k(6) k(7) c5 c6 by blast
  with c7 show ?thesis unfolding q_def W_def by blast
qed

text \<open>
  C3, as amended. When the port opens and the write of the probe returns, \<open>init_serial\<close>
  does, in this order: the status light to connecting, the open, a sleep of 3000 ms, the
  reset of the input buffer and of the output buffer, the report of the connection, the
  write of \<open>STATUS,0,none\<close> with its newline, a sleep of 500 ms, the collection of the
  startup lines, the status light to ready; it returns \<open>True\<close> with the port open,
  whatever the device sent. The collection takes a prefix of the lines that arrive after
  the reset, prints the non-empty ones in order, polls every 100 ms, writes nothing, and
  ends 3000 ms after it began when no line was printed, and otherwise 3000 ms after the
  last line was printed: there is no shorter quiet time.
\<close>

theorem handshake_sequence:
  assumes port: "(if SERIAL_PORT w = None
                  then find_esp32_port_rpi (gpio_uart_available w) (comports w)
                  else SERIAL_PORT w) = Some port"
      and opened: "outcome w" and wrote: "outcome (w\<lparr>script := tl (script w)\<rparr>)"
  shows "fst (init_serial w) = True \<and> ser (snd (init_serial w)) = Some True
     \<and> SERIAL_PORT (snd (init_serial w)) = Some port
     \<and> (\<exists>k es. trace (snd (init_serial w)) =
            trace w @ [Led True False, Open port True, Sleep 3000, ResetInput, ResetOutput,
                       Print (Connected port), Write (''STATUS,0,none'' @ [CHR 0x0A]) True, Sleep 500]
              @ es @ [Led True True]
          \<and> incoming (snd (init_serial w)) =
              drop k (dropWhile (\<lambda>e. fst e \<le> now w + 3000) (incoming w))
          \<and> (\<forall>e \<in> set (take k (dropWhile (\<lambda>e. fst e \<le> now w + 3000) (incoming w))).
                fst e \<le> now (snd (init_serial w)))
          \<and> (incoming (snd (init_serial w)) = []
              \<or> now (snd (init_serial w)) - 100 < fst (hd (incoming (snd (init_serial w)))))
          \<and> responses es = filter (\<lambda>l. l \<noteq> [])
               (map (\<lambda>e. py_ustrip (py_decode (snd e)))
                  (take k (dropWhile (\<lambda>e. fst e \<le> now w + 3000) (incoming w))))
          \<and> written es = [] \<and> link_events es = []
          \<and> now (snd (init_serial w)) = now w + 3500 + elapsed es
          \<and> (if responses es = [] then now (snd (init_serial w)) = now w + 6500
              else \<exists>es1 l es2. es = es1 @ Print (Response l) # es2 \<and> responses es2 = []
                     \<and> now (snd (init_serial w)) = now w + 3500 + elapsed es1 + 3000))"
  by (rule handshake_events [OF port opened wrote])

text \<open>
  The claim as stated fails on the quiet window: with one startup line waiting from
  3600 ms, read at 3600 ms, the collection goes on for 3000 ms after it and ends at
  6600 ms, where the policy of a 1000 ms quiet time polled every 100 ms ends it by
  4700 ms; the phase lasts 3100 ms, more than the 3 seconds of the claim.
\<close>

theorem handshake_no_quiet_window_counterexample:
  "fst (init_serial (booting [(3600, ''ready'' @ [CHR 0x0A])] [])) = True
   \<and> trace (snd (init_serial (booting [(3600, ''ready'' @ [CHR 0x0A])] []))) =
       [Led True False, Open ''/dev/ttyUSB0'' True, Sleep 3000, ResetInput, ResetOutput,
        Print (Connected ''/dev/ttyUSB0''), Write (''STATUS,0,none'' @ [CHR 0x0A]) True, Sleep 500,
        Sleep 100, Print (Response (text_of ''ready''))] @ replicate 30 (Sleep 100) @ [Led True True]
   \<and> now (snd (init_serial (booting [(3600, ''ready'' @ [CHR 0x0A])] []))) = 6600
   \<and> \<not> quiet_window_policy 3000 1000 100 3500 3600 1
         (now (snd (init_serial (booting [(3600, ''ready'' @ [CHR 0x0A])] []))))"
  by code_simp

theorem handshake_sequence_witness:
  "fst (init_serial (booting [(3600, ''ready'' @ [CHR 0x0A])] [True, True])) = True
   \<and> ser (snd (init_serial (booting [(3600, ''ready'' @ [CHR 0x0A])] [True, True]))) = Some True
   \<and> SERIAL_PORT (snd (init_serial (booting [(3600, ''ready'' @ [CHR 0x0A])] [True, True])))
       = Some ''/dev/ttyUSB0''
   \<and> now (snd (init_serial (booting [(3600, ''ready'' @ [CHR 0x0A])] [True, True]))) = 6600
   \<and> now (snd (init_serial (booting [] []))) = 6500"
proof -
  let ?w = "booting [(3600, ''ready'' @ [CHR 0x0A])] [True, True]"
  have a: "(if SERIAL_PORT ?w = None
            then find_esp32_port_rpi (gpio_uart_available ?w) (comports ?w)
            else SERIAL_PORT ?w) = Some ''/dev/ttyUSB0''"
    by code_simp
  have b: "outcome ?w" "outcome (?w\<lparr>script := tl (script ?w)\<rparr>)"
    by (simp_all add: booting_def outcome_def)
  have c: "now (snd (init_serial ?w)) = 6600" "now (snd (init_serial (booting [] []))) = 6500"
    by code_simp+
  show ?thesis
    using handshake_sequence [OF a b] c by blast
qed

lemma init_serial_events:
  assumes port: "SERIAL_PORT w = Some port"
  shows "\<exists>es. trace (snd (init_serial w)) = trace w @ [Led True False, Open port (outcome w)] @ es
           \<and> link_events es = []
           \<and> written es = (if outcome w then [''STATUS,0,none'' @ [CHR 0x0A]] else [])"
proof (cases "outcome w")
  case False
  then have "trace (snd (init_serial w)) =
      trace w @ [Led True False, Open port (outcome w)] @ [Print SerialUnavailable, Led False False]"
    using port by (simp add: init_serial_def Let_def case_prod_beta outcome_def)
  with False show ?thesis by (intro exI [of _ "[Print SerialUnavailable, Led False False]"]) simp
next
  case opened: True
  show ?thesis
  proof (cases "outcome (w\<lparr>script := tl (script w)\<rparr>)")
    case False
    let ?es = "[Sleep 3000, ResetInput, ResetOutput, Print (Connected port),
                Write (''STATUS,0,none'' @ [CHR 0x0A]) False, Print SerialUnavailable, Led False False]"
    have "trace (snd (init_serial w)) = trace w @ [Led True False, Open port (outcome w)] @ ?es"
      using port opened False by (simp add: init_serial_def Let_def case_prod_beta outcome_def)
    with opened show ?thesis by (intro exI [of _ ?es]) simp
  next
    case wrote: True
    have p: "(if SERIAL_PORT w = None
              then find_esp32_port_rpi (gpio_uart_available w) (comports w)
              else SERIAL_PORT w) = Some port"
      using port by simp
    from handshake_events [OF p opened wrote] obtain es where
      es: "trace (snd (init_serial w)) =
            trace w @ [Led True False, Open port True, Sleep 3000, ResetInput, ResetOutput,
                       Print (Connected port), Write (''STATUS,0,none'' @ [CHR 0x0A]) True, Sleep 500]
              @ es @ [Led True True]" "written es = []" "link_events es = []"
      by blast
    let ?es = "[Sleep 3000, ResetInput, ResetOutput, Print (Connected port),
                Write (''STATUS,0,none'' @ [CHR 0x0A]) True, Sleep 500] @ es @ [Led True True]"
    have "trace (snd (init_serial w)) = trace w @ [Led True False, Open port (outcome w)] @ ?es"
      using es(1) opened by simp
    moreover have "link_events ?es = []" "written ?es = [''STATUS,0,none'' @ [CHR 0x0A]]"
      using es(2,3) by (simp_all add: written_append link_events_append)
    ultimately show ?thesis using opened by (intro exI [of _ ?es]) simp
  qed
qed

subsection \<open>A write that fails\<close>

lemma outcome_script: "script a = script b \<Longrightarrow> outcome a = outcome b"
  by (simp add: outcome_def)

lemma reconnect_events:
  assumes open_now: "ser w = Some True" and port: "SERIAL_PORT w = Some port"
  shows "fst (reconnect w) = False
     \<and> (\<exists>es. trace (snd (reconnect w)) =
            trace w @ [Print SerialError, Led False False, Close, Sleep 1000,
                       Led True False, Open port (outcome w)] @ es
          \<and> link_events es = []
          \<and> written es = (if outcome w then [''STATUS,0,none'' @ [CHR 0x0A]] else []))"
proof -
  define w2 where
    "w2 = sleep 1000 (emit Close ((emit (Led False False) (emit (Print SerialError) w))\<lparr>ser := Some False\<rparr>))"
  have r: "reconnect w = (False, snd (init_serial w2))"
    using open_now by (simp add: reconnect_def Let_def w2_def)
  have f: "SERIAL_PORT w2 = Some port" "outcome w2 = outcome w"
    "trace w2 = trace w @ [Print SerialError, Led False False, Close, Sleep 1000]"
    using port by (simp_all add: w2_def)
  from init_serial_events [OF f(1)] obtain es where
    es: "trace (snd (init_serial w2)) = trace w2 @ [Led True False, Open port (outcome w2)] @ es"
      "link_events es = []"
      "written es = (if outcome w2 then [''STATUS,0,none'' @ [CHR 0x0A]] else [])"
    by blast
  show ?thesis
    using es by (simp add: r f)
qed

text \<open>
  C2. A command sent on the open port whose \<open>write\<close> raises, or whose \<open>flush\<close> raises
  after the write: \<open>send_to_robot\<close> returns \<open>False\<close>, and after the failing call it
  reports the error, closes the port, sleeps 1000 ms and opens the port of \<open>SERIAL_PORT\<close>
  once, through \<open>init_serial\<close>. No other close or open follows, and the only bytes written
  after the failure are the \<open>STATUS\<close> probe of the handshake, when the port opens: the
  command is handed to \<open>write\<close> once.
\<close>

theorem write_failure_recovery:
  assumes open_now: "ser w = Some True" and port: "SERIAL_PORT w = Some port"
      and fails: "\<not> outcome w \<or> \<not> outcome (w\<lparr>script := tl (script w)\<rparr>)"
  shows "fst (send_to_robot (Some (PDict cmd_data)) w) = False
     \<and> (\<exists>es. trace (snd (send_to_robot (Some (PDict cmd_data)) w)) =
            trace w @ [Led False True, Sleep 100, Led True True]
              @ (if outcome w then [Write (py_encode (serial_cmd cmd_data)) True, Flush False]
                 else [Write (py_encode (serial_cmd cmd_data)) False])
              @ [Print SerialError, Led False False, Close, Sleep 1000, Led True False,
                 Open port (outcome (w\<lparr>script := drop (if outcome w then 2 else 1) (script w)\<rparr>))]
              @ es
          \<and> link_events es = []
          \<and> written es =
               (if outcome (w\<lparr>script := drop (if outcome w then 2 else 1) (script w)\<rparr>)
                then [''STATUS,0,none'' @ [CHR 0x0A]] else []))"
proof -
  define w1 where "w1 = emit (Led True True) (sleep 100 (emit (Led False True) w))"
  have w1: "ser w1 = Some True" "SERIAL_PORT w1 = Some port" "outcome w1 = outcome w"
    "script w1 = script w" "trace w1 = trace w @ [Led False True, Sleep 100, Led True True]"
    using open_now port by (simp_all add: w1_def)
  show ?thesis
  proof (cases "outcome w")
    case False
    define w2 where "w2 = snd (ser_write (py_encode (serial_cmd cmd_data)) w1)"
    have s: "send_to_robot (Some (PDict cmd_data)) w = reconnect w2"
      using open_now False w1(3)
      by (simp add: send_to_robot_def Let_def case_prod_beta w1_def [symmetric] w2_def)
    have w2: "ser w2 = Some True" "SERIAL_PORT w2 = Some port"
      "trace w2 = trace w1 @ [Write (py_encode (serial_cmd cmd_data)) False]"
      "script w2 = tl (script w)"
      using w1 False by (simp_all add: w2_def)
    have o: "outcome w2 = outcome (w\<lparr>script := drop (if outcome w then 2 else 1) (script w)\<rparr>)"
      using False w2(4) by (intro outcome_script) (simp add: drop_Suc)
    from reconnect_events [OF w2(1,2)] obtain es where
      "fst (reconnect w2) = False"
      "trace (snd (reconnect w2)) =
         trace w2 @ [Print SerialError, Led False False, Close, Sleep 1000,
                     Led True False, Open port (outcome w2)] @ es"
      "link_events es = []"
      "written es = (if outcome w2 then [''STATUS,0,none'' @ [CHR 0x0A]] else [])"
      by blast
    with False show ?thesis
      unfolding o [symmetric] by (intro conjI exI [of _ es]) (simp_all add: s w2 w1)
  next
    case True
    with fails have flush: "\<not> outcome (w\<lparr>script := tl (script w)\<rparr>)" by simp
    define w2 where "w2 = snd (ser_write (py_encode (serial_cmd cmd_data)) w1)"
    define w3 where "w3 = snd (ser_flush w2)"
    have w2: "ser w2 = Some True" "SERIAL_PORT w2 = Some port" "script w2 = tl (script w)"
      "trace w2 = trace w1 @ [Write (py_encode (serial_cmd cmd_data)) True]"
      using w1 True by (simp_all add: w2_def)
    have o2: "\<not> outcome w2"
      using flush w2(3) by (simp add: outcome_def)
    have s: "send_to_robot (Some (PDict cmd_data)) w = reconnect w3"
      using open_now True w1(3) o2
      by (simp add: send_to_robot_def Let_def case_prod_beta w1_def [symmetric]
            w2_def [symmetric] w3_def)
    have w3: "ser w3 = Some True" "SERIAL_PORT w3 = Some port"
      "trace w3 = trace w2 @ [Flush False]" "script w3 = tl (tl (script w))"
      using w2 o2 by (simp_all add: w3_def)
    have o: "outcome w3 = outcome (w\<lparr>script := drop (if outcome w then 2 else 1) (script w)\<rparr>)"
      using True w3(4) by (intro outcome_script) (simp add: drop_Suc numeral_2_eq_2)
    from reconnect_events [OF w3(1,2)] obtain es where
      "fst (reconnect w3) = False"
      "trace (snd (reconnect w3)) =
         trace w3 @ [Print SerialError, Led False False, Close, Sleep 1000,
                     Led True False, Open port (outcome w3)] @ es"
      "link_events es = []"
      "written es = (if outcome w3 then [''STATUS,0,none'' @ [CHR 0x0A]] else [])"
      by blast
    with True show ?thesis
      unfolding o [symmetric] by (intro conjI exI [of _ es]) (simp_all add: s w3 w2 w1)
  qed
qed

theorem write_failure_recovery_witness:
  "fst (send_to_robot (Some (PDict [(''command'', PStr ''FORWARD''), (''value'', PInt 5),
                                     (''unit'', PStr ''meter'')])) (idle 0 [] [False])) = False
   \<and> trace (snd (send_to_robot (Some (PDict [(''command'', PStr ''FORWARD''), (''value'', PInt 5),
                                     (''unit'', PStr ''meter'')])) (idle 0 [] [False]))) =
       [Led False True, Sleep 100, Led True True, Write (''FORWARD,5,meter'' @ [CHR 0x0A]) False,
        Print SerialError, Led False False, Close, Sleep 1000, Led True False,
        Open ''/dev/ttyUSB0'' True, Sleep 3000, ResetInput, ResetOutput,
        Print (Connected ''/dev/ttyUSB0''), Write (''STATUS,0,none'' @ [CHR 0x0A]) True, Sleep 500]
       @ replicate 30 (Sleep 100) @ [Led True True]
   \<and> trace (snd (send_to_robot (Some (PDict [(''command'', PStr ''FORWARD''), (''value'', PInt 5),
                                     (''unit'', PStr ''meter'')])) (idle 0 [] [True, False, False]))) =
       [Led False True, Sleep 100, Led True True, Write (''FORWARD,5,meter'' @ [CHR 0x0A]) True,
        Flush False, Print SerialError, Led False False, Close, Sleep 1000, Led True False,
        Open ''/dev/ttyUSB0'' False, Print SerialUnavailable, Led False False]"
proof -
  let ?cmd = "[(''command'', PStr ''FORWARD''), (''value'', PInt 5), (''unit'', PStr ''meter'')]"
  have a: "ser (idle 0 [] [False]) = Some True"
    "SERIAL_PORT (idle 0 [] [False]) = Some ''/dev/ttyUSB0''"
    by (simp_all add: idle_def)
  have b: "\<not> outcome (idle 0 [] [False])
           \<or> \<not> outcome ((idle 0 [] [False])\<lparr>script := tl (script (idle 0 [] [False]))\<rparr>)"
    by (simp add: idle_def outcome_def)
  have c: "trace (snd (send_to_robot (Some (PDict ?cmd)) (idle 0 [] [False]))) =
       [Led False True, Sleep 100, Led True True, Write (''FORWARD,5,meter'' @ [CHR 0x0A]) False,
        Print SerialError, Led False False, Close, Sleep 1000, Led True False,
        Open ''/dev/ttyUSB0'' True, Sleep 3000, ResetInput, ResetOutput,
        Print (Connected ''/dev/ttyUSB0''), Write (''STATUS,0,none'' @ [CHR 0x0A]) True, Sleep 500]
       @ replicate 30 (Sleep 100) @ [Led True True]"
    "trace (snd (send_to_robot (Some (PDict ?cmd)) (idle 0 [] [True, False, False]))) =
       [Led False True, Sleep 100, Led True True, Write (''FORWARD,5,meter'' @ [CHR 0x0A]) True,
        Flush False, Print SerialError, Led False False, Close, Sleep 1000, Led True False,
        Open ''/dev/ttyUSB0'' False, Print SerialUnavailable, Led False False]"
    by code_simp+
  show ?thesis
    using write_failure_recovery [OF a b, of ?cmd] c by blast
qed

subsection \<open>The defaults of a command\<close>

text \<open>
  C10. A command object sent on the open port, when \<open>write\<close> and \<open>flush\<close> return: a key
  that is missing counts as present with its default, \<open>STOP\<close> for \<open>command\<close>, \<open>0\<close> for
  \<open>value\<close> and \<open>none\<close> for \<open>unit\<close>, so the empty object gives the line \<open>STOP,0,none\<close>
  with its newline; the line is the one thing written, the port is neither closed nor
  opened again, and the call returns \<open>True\<close>.
\<close>

theorem missing_keys_default:
  assumes open_now: "ser w = Some True"
      and link_ok: "outcome w" "outcome (w\<lparr>script := tl (script w)\<rparr>)"
  shows "py_encode (serial_cmd []) = ''STOP,0,none'' @ [CHR 0x0A]
     \<and> (map_of d ''command'' = None \<longrightarrow> serial_cmd d = serial_cmd ((''command'', PStr ''STOP'') # d))
     \<and> (map_of d ''value'' = None \<longrightarrow> serial_cmd d = serial_cmd ((''value'', PInt 0) # d))
     \<and> (map_of d ''unit'' = None \<longrightarrow> serial_cmd d = serial_cmd ((''unit'', PStr ''none'') # d))
     \<and> fst (send_to_robot (Some (PDict d)) w) = True
     \<and> written (trace (snd (send_to_robot (Some (PDict d)) w)))
         = written (trace w) @ [py_encode (serial_cmd d)]
     \<and> link_events (trace (snd (send_to_robot (Some (PDict d)) w))) = link_events (trace w)"
proof -
  have empty: "py_encode (serial_cmd []) = ''STOP,0,none'' @ [CHR 0x0A]"
    by code_simp
  have dflt: "map_of d ''command'' = None \<longrightarrow> serial_cmd d = serial_cmd ((''command'', PStr ''STOP'') # d)"
    "map_of d ''value'' = None \<longrightarrow> serial_cmd d = serial_cmd ((''value'', PInt 0) # d)"
    "map_of d ''unit'' = None \<longrightarrow> serial_cmd d = serial_cmd ((''unit'', PStr ''none'') # d)"
    by (simp_all add: serial_cmd_def dict_get_def)
  define w1 where "w1 = emit (Led True True) (sleep 100 (emit (Led False True) w))"
  define w2 where "w2 = snd (ser_write (py_encode (serial_cmd d)) w1)"
  define w3 where "w3 = snd (ser_flush w2)"
  define w4 where "w4 = sleep 300 (emit (Print (CommandSent (py_strip (serial_cmd d)))) w3)"
  have w1: "outcome w1" "script w1 = script w"
    "trace w1 = trace w @ [Led False True, Sleep 100, Led True True]"
    using link_ok(1) by (simp_all add: w1_def)
  have w2: "script w2 = tl (script w)"
    "trace w2 = trace w1 @ [Write (py_encode (serial_cmd d)) True]"
    using w1 by (simp_all add: w2_def)
  have o2: "outcome w2"
    using link_ok(2) w2(1) by (simp add: outcome_def)
  have w4: "trace w4 = trace w2 @ [Flush True, Print (CommandSent (py_strip (serial_cmd d))), Sleep 300]"
    using o2 by (simp add: w4_def w3_def)
  have n4: "now w4 = now w3 + 300"
    by (simp add: w4_def)
  have s: "send_to_robot (Some (PDict d)) w =
             (True, if fst (snd (response_loop (now w4) 0 w4)) = 0
                    then emit (Print NoResponse) (snd (snd (response_loop (now w4) 0 w4)))
                    else snd (snd (response_loop (now w4) 0 w4)))"
    using open_now w1(1) o2
    by (simp add: send_to_robot_def Let_def case_prod_beta w1_def [symmetric]
          w2_def [symmetric] w3_def [symmetric] w4_def [symmetric] n4)
  obtain ts c w5 where run: "response_loop (now w4) 0 w4 = (ts, c, w5)"
    by (cases "response_loop (now w4) 0 w4") auto
  from response_loop_run [OF run] obtain es where
    es: "trace w5 = trace w4 @ es" "written es = []" "link_events es = []"
    by blast
  have "written (trace (snd (send_to_robot (Some (PDict d)) w)))
          = written (trace w) @ [py_encode (serial_cmd d)]"
    "link_events (trace (snd (send_to_robot (Some (PDict d)) w))) = link_events (trace w)"
    using es by (simp_all add: s run w4 w2 w1 written_append link_events_append)
  with empty dflt show ?thesis
    by (simp add: s)
qed

theorem missing_keys_default_witness:
  "serial_cmd [(''value'', PInt 2)] = ''STOP,2,none'' @ [CHR 0x0A]
   \<and> fst (send_to_robot (Some (PDict [])) (idle 0 [] [])) = True
   \<and> written (trace (snd (send_to_robot (Some (PDict [])) (idle 0 [] [])))) = [''STOP,0,none'' @ [CHR 0x0A]]"
proof -
  have a: "ser (idle 0 [] []) = Some True" "outcome (idle 0 [] [])"
    "outcome ((idle 0 [] [])\<lparr>script := tl (script (idle 0 [] []))\<rparr>)"
    by (simp_all add: idle_def outcome_def)
  have b: "map_of [(''value'', PInt 2)] ''command'' = None" "map_of [(''value'', PInt 2)] ''unit'' = None"
    by simp_all
  have c: "serial_cmd [(''unit'', PStr ''none''), (''command'', PStr ''STOP''), (''value'', PInt 2)]
             = ''STOP,2,none'' @ [CHR 0x0A]"
    by code_simp
  have d: "written (trace (idle 0 [] [])) = []"
    by (simp add: idle_def)
  have e: "serial_cmd [(''value'', PInt 2)]
             = serial_cmd [(''unit'', PStr ''none''), (''command'', PStr ''STOP''), (''value'', PInt 2)]"
    using missing_keys_default [OF a, of "[(''value'', PInt 2)]"]
          missing_keys_default [OF a, of "[(''command'', PStr ''STOP''), (''value'', PInt 2)]"] b
    by simp
  have h: "serial_cmd [(''value'', PInt 2)] = ''STOP,2,none'' @ [CHR 0x0A]"
    by (simp only: e c)
  from missing_keys_default [OF a, of "[]"] have
    f: "fst (send_to_robot (Some (PDict [])) (idle 0 [] [])) = True"
      "written (trace (snd (send_to_robot (Some (PDict [])) (idle 0 [] []))))
         = written (trace (idle 0 [] [])) @ [py_encode (serial_cmd [])]"
      "py_encode (serial_cmd []) = ''STOP,0,none'' @ [CHR 0x0A]"
    by blast+
  have g: "written (trace (snd (send_to_robot (Some (PDict [])) (idle 0 [] []))))
             = [''STOP,0,none'' @ [CHR 0x0A]]"
    unfolding f(2) d f(3) by simp
  show ?thesis
    using h f(1) g by blast
qed

end
